theory Spec2Isabelle
  imports Main "HOL-Library.Sublist" "HOL-Library.Multiset" "HOL-Library.Char_ord"
    "HOL-Library.List_Lexorder" "HOL-Library.Product_Lexorder" "HOL-Library.Finite_Map"
begin

section \<open>JavaScript strings and Node's POSIX path functions\<close>

text \<open>
  Strings are lists of code units; the development covers the code units below 256.
  \<open>split_on c s\<close> is \<^verbatim>\<open>s.split(c)\<close> for a one-character separator (the empty
  string splits into one empty piece), \<open>join_with sep xs\<close> is \<^verbatim>\<open>xs.join(sep)\<close>.
\<close>

fun split_on :: "char \<Rightarrow> string \<Rightarrow> string list" where
  "split_on c [] = [[]]"
| "split_on c (x # xs) =
     (if x = c then [] # split_on c xs
      else (case split_on c xs of [] \<Rightarrow> [[x]] | w # ws \<Rightarrow> (x # w) # ws))"

fun join_with :: "string \<Rightarrow> string list \<Rightarrow> string" where
  "join_with sep [] = []"
| "join_with sep [x] = x"
| "join_with sep (x # y # zs) = x @ sep @ join_with sep (y # zs)"

text \<open>
  The functions of Node's \<^verbatim>\<open>path\<close> module belong to the platform, not to the
  repository; they are written here after the POSIX implementation shipped with Node 4
  (\<^verbatim>\<open>normalizeArray\<close>, \<^verbatim>\<open>normalize\<close>, \<^verbatim>\<open>join\<close>, \<^verbatim>\<open>resolve\<close>, \<^verbatim>\<open>relative\<close>,
  \<^verbatim>\<open>dirname\<close>, \<^verbatim>\<open>basename\<close>, \<^verbatim>\<open>extname\<close>). The working directory that
  \<^verbatim>\<open>resolve\<close> reads from the process is an explicit argument \<open>cwd\<close>.
\<close>

fun normalizeArray :: "string list \<Rightarrow> bool \<Rightarrow> string list \<Rightarrow> string list" where
  "normalizeArray [] allowAboveRoot res = res"
| "normalizeArray (p # ps) allowAboveRoot res =
     (if p = [] \<or> p = ''.'' then normalizeArray ps allowAboveRoot res
      else if p = ''..'' then
        (if res \<noteq> [] \<and> last res \<noteq> ''..'' then normalizeArray ps allowAboveRoot (butlast res)
         else if allowAboveRoot then normalizeArray ps allowAboveRoot (res @ [''..''])
         else normalizeArray ps allowAboveRoot res)
      else normalizeArray ps allowAboveRoot (res @ [p]))"

definition isAbsolute :: "string \<Rightarrow> bool" where
  "isAbsolute p = (case p of [] \<Rightarrow> False | c # _ \<Rightarrow> c = CHR ''/'')"

definition path_normalize :: "string \<Rightarrow> string" where
  "path_normalize p =
     (let trailingSlash = (p \<noteq> [] \<and> last p = CHR ''/'');
          s = join_with ''/'' (normalizeArray (split_on CHR ''/'' p) (\<not> isAbsolute p) []);
          s1 = (if s = [] \<and> \<not> isAbsolute p then ''.'' else s);
          s2 = (if s1 \<noteq> [] \<and> trailingSlash then s1 @ ''/'' else s1)
      in (if isAbsolute p then ''/'' else []) @ s2)"

fun join_segments :: "string \<Rightarrow> string list \<Rightarrow> string" where
  "join_segments acc [] = acc"
| "join_segments acc (segment # rest) =
     (if segment \<noteq> [] then
        (if acc = [] then join_segments segment rest
         else join_segments (acc @ ''/'' @ segment) rest)
      else join_segments acc rest)"

definition path_join :: "string list \<Rightarrow> string" where
  "path_join args = path_normalize (join_segments [] args)"

text \<open>
  \<^verbatim>\<open>path.resolve\<close> with one argument, \<^verbatim>\<open>path.relative\<close> and its local
  \<^verbatim>\<open>trim\<close>, \<^verbatim>\<open>path.dirname\<close>, \<^verbatim>\<open>path.extname\<close> and \<^verbatim>\<open>path.basename\<close>.
  The last three read the groups of Node's path-splitting regular expression: the root
  (a leading slash), the directory part up to the last component, the last component
  with trailing slashes ignored, and its extension (from the last dot, unless that dot
  is the component's first character or the component is \<^verbatim>\<open>..\<close>).
\<close>

definition path_resolve :: "string \<Rightarrow> string \<Rightarrow> string" where
  "path_resolve cwd p =
     (let (resolvedPath, resolvedAbsolute) =
            (if p = [] then (cwd @ ''/'', isAbsolute cwd)
             else if isAbsolute p then (p @ ''/'', True)
             else (cwd @ ''/'' @ p @ ''/'', isAbsolute cwd));
          s = join_with ''/'' (normalizeArray (split_on CHR ''/'' resolvedPath) (\<not> resolvedAbsolute) []);
          r = (if resolvedAbsolute then ''/'' else []) @ s
      in if r = [] then ''.'' else r)"

definition trim :: "string list \<Rightarrow> string list" where
  "trim arr = rev (dropWhile (\<lambda>x. x = []) (rev (dropWhile (\<lambda>x. x = []) arr)))"

fun samePartsLength :: "string list \<Rightarrow> string list \<Rightarrow> nat" where
  "samePartsLength (x # xs) (y # ys) = (if x \<noteq> y then 0 else Suc (samePartsLength xs ys))"
| "samePartsLength _ _ = 0"

definition path_relative :: "string \<Rightarrow> string \<Rightarrow> string \<Rightarrow> string" where
  "path_relative cwd from to =
     (let fromParts = trim (split_on CHR ''/'' (drop 1 (path_resolve cwd from)));
          toParts = trim (split_on CHR ''/'' (drop 1 (path_resolve cwd to)));
          n = samePartsLength fromParts toParts
      in join_with ''/'' (replicate (length fromParts - n) ''..'' @ drop n toParts))"

definition strip_slashes :: "string \<Rightarrow> string" where
  "strip_slashes s = rev (dropWhile (\<lambda>c. c = CHR ''/'') (rev s))"

definition last_component :: "string \<Rightarrow> string" where
  "last_component p = rev (takeWhile (\<lambda>c. c \<noteq> CHR ''/'') (rev (strip_slashes p)))"

definition path_dirname :: "string \<Rightarrow> string" where
  "path_dirname p =
     (let root = (if isAbsolute p then ''/'' else []);
          rest = strip_slashes (drop (length root) p);
          dir = rev (dropWhile (\<lambda>c. c \<noteq> CHR ''/'') (rev rest))
      in if root = [] \<and> dir = [] then ''.'' else root @ butlast dir)"

definition path_extname :: "string \<Rightarrow> string" where
  "path_extname p =
     (let b = last_component p;
          e = rev (takeWhile (\<lambda>c. c \<noteq> CHR ''.'') (rev b))
      in if b = ''..'' \<or> CHR ''.'' \<notin> set b \<or> Suc (length e) = length b then []
         else CHR ''.'' # e)"

definition path_basename :: "string \<Rightarrow> string \<Rightarrow> string" where
  "path_basename p ext =
     (let f = last_component p
      in if ext \<noteq> [] \<and> suffix ext f then take (length f - length ext) f else f)"

section \<open>Path and identity utilities (\<^verbatim>\<open>src/utils/shared.js\<close>)\<close>

definition idKeys :: "string \<Rightarrow> string list" where
  "idKeys idString = split_on CHR ''.'' idString"

text \<open>
  \<^verbatim>\<open>relativePathArray\<close> of \<^verbatim>\<open>utils/shared.js\<close>: \<^verbatim>\<open>indexOf\<close> looks for
  \<open>fromPath\<close> anywhere inside \<open>filePath\<close>. The older copy among the parse helpers
  has no guard at all.
\<close>

fun indexOf_from :: "string \<Rightarrow> string \<Rightarrow> int \<Rightarrow> int" where
  "indexOf_from [] pat i = (if pat = [] then i else - 1)"
| "indexOf_from (c # cs) pat i =
     (if prefix pat (c # cs) then i else indexOf_from cs pat (i + 1))"

definition indexOf :: "string \<Rightarrow> string \<Rightarrow> int" where
  "indexOf s pat = indexOf_from s pat 0"

definition relativePathArray :: "string \<Rightarrow> string \<Rightarrow> string \<Rightarrow> string list" where
  "relativePathArray cwd filePath fromPath =
     (if indexOf filePath fromPath = - 1 \<or> filePath = fromPath then []
      else (let keys = path_relative cwd fromPath (path_dirname filePath)
            in if keys \<noteq> [] \<and> length keys \<noteq> 0 then split_on CHR ''/'' keys else []))"

definition relativePathArray_parse :: "string \<Rightarrow> string \<Rightarrow> string \<Rightarrow> string list" where
  "relativePathArray_parse cwd filePath fromPath =
     (let keys = path_relative cwd fromPath (path_dirname filePath)
      in if keys \<noteq> [] \<and> length keys \<noteq> 0 then split_on CHR ''/'' keys else [])"

text \<open>
  \<^verbatim>\<open>resourcePath\<close>: \<^verbatim>\<open>shift\<close> drops the first key when there is more than one,
  \<^verbatim>\<open>pop\<close> takes the last of what is left (on an empty array it would yield
  \<^verbatim>\<open>undefined\<close>, which \<^verbatim>\<open>+ '.html'\<close> turns into the text \<^verbatim>\<open>undefined.html\<close>).
\<close>

definition resourcePath :: "string \<Rightarrow> string \<Rightarrow> string" where
  "resourcePath resourceId dest =
     (let subPath0 = idKeys resourceId;
          subPath1 = (if length subPath0 \<noteq> 0 \<and> length subPath0 > 1 then tl subPath0 else subPath0);
          filename = (case subPath1 of [] \<Rightarrow> ''undefined'' | _ \<Rightarrow> last subPath1) @ ''.html'';
          subPath2 = butlast subPath1
      in path_normalize (path_join [dest, join_with ''/'' subPath2, filename]))"

text \<open>
  The wording of the specification for \<^verbatim>\<open>resourcePath\<close>, kept apart from the code:
  with more than one segment the first is discarded, the last one plus \<^verbatim>\<open>.html\<close> is
  the file name and the segments strictly between them are the directories
  (\<^verbatim>\<open>/\<close>-separated); a single segment is the file name.
\<close>

definition resourcePath_spec :: "string \<Rightarrow> string \<Rightarrow> string" where
  "resourcePath_spec resourceId dest =
     (let segs = split_on CHR ''.'' resourceId
      in if length segs > 1
         then path_normalize
                (path_join [dest, join_with ''/'' (butlast (tl segs)), last segs @ ''.html''])
         else path_normalize (path_join [dest, resourceId @ ''.html'']))"

section \<open>Keys of the parse helpers\<close>

text \<open>
  \<^verbatim>\<open>\s\<close> on code units below 256: tab, line feed, vertical tab, form feed, carriage
  return, space and the no-break space. \<^verbatim>\<open>removeLeadingNumbers\<close> deletes the match
  of \<^verbatim>\<open>/^[0-9|\.\-]+/\<close>: the class holds the digits, the bar, the dot and the dash.
\<close>

definition is_space :: "char \<Rightarrow> bool" where
  "is_space c = ((of_char c :: nat) \<in> {9, 10, 11, 12, 13, 32, 160})"

definition is_digit :: "char \<Rightarrow> bool" where
  "is_digit c = (48 \<le> (of_char c :: nat) \<and> (of_char c :: nat) \<le> 57)"

definition basename :: "string \<Rightarrow> string" where
  "basename filepath = path_basename filepath (path_extname filepath)"

definition removeLeadingNumbers :: "string \<Rightarrow> string" where
  "removeLeadingNumbers str =
     dropWhile (\<lambda>c. is_digit c \<or> c = CHR ''|'' \<or> c = CHR ''.'' \<or> c = CHR ''-'') str"

definition keyname :: "string \<Rightarrow> bool \<Rightarrow> string" where
  "keyname str stripNumbers =
     (let name = map (\<lambda>c. if is_space c then CHR ''-'' else c) (basename str)
      in if stripNumbers then removeLeadingNumbers name else name)"

text \<open>The later \<^verbatim>\<open>keyname\<close> of \<^verbatim>\<open>utils/shared.js\<close> takes no options.\<close>

definition keyname_shared :: "string \<Rightarrow> string" where
  "keyname_shared str = path_basename str (path_extname str)"

section \<open>Facts about splitting\<close>

lemma split_on_nonempty: "split_on c s \<noteq> []"
  by (induction s) (auto split: list.splits)

lemma split_on_single: "length (split_on c s) \<le> 1 \<Longrightarrow> split_on c s = [s]"
  by (induction s) (auto split: list.splits if_splits simp: split_on_nonempty)

lemma split_on_append_sep: "split_on c (xs @ c # ys) = split_on c xs @ split_on c ys"
  by (induction xs) (auto split: list.splits simp: split_on_nonempty)

lemma split_on_free: "x \<in> set (split_on c s) \<Longrightarrow> c \<notin> set x"
  by (induction s arbitrary: x) (auto split: list.splits if_splits)

lemma normalizeArray_append:
  "normalizeArray (xs @ ys) a res = normalizeArray ys a (normalizeArray xs a res)"
  by (induction xs a res rule: normalizeArray.induct) auto

lemma normalizeArray_elements:
  assumes "c \<noteq> CHR ''.''"
  shows "\<forall>x\<in>set xs. c \<notin> set x \<Longrightarrow> \<forall>x\<in>set res. x \<noteq> [] \<and> c \<notin> set x \<Longrightarrow>
         \<forall>x\<in>set (normalizeArray xs a res). x \<noteq> [] \<and> c \<notin> set x"
proof (induction xs arbitrary: res)
  case Nil
  then show ?case by simp
next
  case (Cons p ps)
  have bl: "\<forall>x\<in>set (butlast res). x \<noteq> [] \<and> c \<notin> set x"
    using Cons.prems(2) by (meson in_set_butlastD)
  have dd: "\<forall>x\<in>set (res @ [''..'']). x \<noteq> [] \<and> c \<notin> set x"
    using Cons.prems(2) assms by auto
  have pp: "p \<noteq> [] \<Longrightarrow> \<forall>x\<in>set (res @ [p]). x \<noteq> [] \<and> c \<notin> set x"
    using Cons.prems by auto
  from Cons.prems(1) have ps: "\<forall>x\<in>set ps. c \<notin> set x" by simp
  show ?case
    using Cons.IH[OF ps bl] Cons.IH[OF ps dd] Cons.IH[OF ps Cons.prems(2)] Cons.IH[OF ps pp]
    by simp
qed

lemma split_on_no_sep: "c \<notin> set x \<Longrightarrow> split_on c x = [x]"
  by (induction x) auto

lemma split_on_join:
  "xs \<noteq> [] \<Longrightarrow> \<forall>x\<in>set xs. c \<notin> set x \<Longrightarrow> split_on c (join_with [c] xs) = xs"
proof (induction xs)
  case Nil
  then show ?case by simp
next
  case (Cons x xs)
  show ?case
  proof (cases xs)
    case Nil
    with Cons.prems show ?thesis by (simp add: split_on_no_sep)
  next
    case (Cons y ys)
    with Cons.IH Cons.prems have "split_on c (join_with [c] (y # ys)) = y # ys" by simp
    with Cons Cons.prems show ?thesis
      by (simp add: split_on_append_sep split_on_no_sep)
  qed
qed

lemma trim_nonempty: "\<forall>x\<in>set xs. x \<noteq> [] \<Longrightarrow> trim xs = xs"
proof -
  assume a: "\<forall>x\<in>set xs. x \<noteq> []"
  then have "dropWhile (\<lambda>x. x = []) xs = xs" by (cases xs) auto
  moreover from a have "dropWhile (\<lambda>x. x = []) (rev xs) = rev xs" by (cases "rev xs") auto
  ultimately show ?thesis by (simp add: trim_def)
qed

lemma samePartsLength_le: "samePartsLength xs ys \<le> length xs"
  by (induction xs ys rule: samePartsLength.induct) auto

lemma path_resolve_absolute: "isAbsolute p \<Longrightarrow> path_resolve cwd p = path_resolve [] p"
  by (auto simp: path_resolve_def isAbsolute_def split: list.splits)

section \<open>Claims on the path and identity utilities\<close>

text \<open>
  Claim C8. \<^verbatim>\<open>resourcePath\<close> agrees, for every resource ID and every \<open>dest\<close>, with
  the specification's description: an ID of more than one dot-separated segment loses
  its first segment, the last segment plus \<^verbatim>\<open>.html\<close> is the file name, the segments
  between them are the directories, and \<open>dest\<close>, the directories and the file name
  are joined and normalized; an ID of one segment is the file name. The two examples of
  the specification follow, with the default \<open>dest\<close> (the empty string).
\<close>

theorem resourcePath_refines_spec:
  "resourcePath resourceId dest = resourcePath_spec resourceId dest
   \<and> resourcePath ''components.button.base'' [] = ''button/base.html''
   \<and> resourcePath ''pink'' [] = ''pink.html''"
proof -
  have general: "resourcePath resourceId dest = resourcePath_spec resourceId dest"
  proof (cases "length (split_on CHR ''.'' resourceId) > 1")
    case True
    then obtain a b bs where eq: "split_on CHR ''.'' resourceId = a # b # bs"
      by (cases "split_on CHR ''.'' resourceId"; cases "tl (split_on CHR ''.'' resourceId)") auto
    show ?thesis
      by (simp add: resourcePath_def resourcePath_spec_def idKeys_def eq)
  next
    case False
    then have "split_on CHR ''.'' resourceId = [resourceId]"
      by (simp add: split_on_single)
    then show ?thesis
      by (simp add: resourcePath_def resourcePath_spec_def idKeys_def path_join_def)
  qed
  have button: "resourcePath ''components.button.base'' [] = ''button/base.html''"
    by code_simp
  have pink: "resourcePath ''pink'' [] = ''pink.html''"
    by code_simp
  from general button pink show ?thesis by simp
qed

text \<open>
  Claim C6. With the option-taking \<^verbatim>\<open>keyname\<close> the two examples of the claim hold,
  but the leading run that is removed is not the run of digits, dots and dashes: the
  character class of \<^verbatim>\<open>removeLeadingNumbers\<close> also holds the bar, so the key of
  \<^verbatim>\<open>|x.html\<close> is \<^verbatim>\<open>x\<close> where the claim leaves \<^verbatim>\<open>|x\<close>.
\<close>

theorem keyname_strips_bar: "keyname ''|x.html'' True = ''x''"
  by code_simp

lemma keyname_examples:
  "keyname ''01-intro.html'' True = ''intro'' \<and> keyname ''01-intro.html'' False = ''01-intro''"
  by code_simp

lemma keyname_shared_example: "keyname_shared ''01-intro.html'' = ''01-intro''"
  by code_simp

text \<open>
  Claim C7. The first example of the claim is the example of the function's own comment;
  the code does not produce it. \<^verbatim>\<open>path.relative\<close> resolves the relative \<^verbatim>\<open>baz\<close>
  against the working directory: run from \<^verbatim>\<open>/a/b\<close> the result is the segments
  below \<^verbatim>\<open>baz\<close> only, run from the root it climbs out with \<^verbatim>\<open>..\<close> first.
\<close>

theorem relativePathArray_comment_example:
  "relativePathArray ''/a/b'' ''/a/b/baz/c/d/f.txt'' ''baz'' = [''c'', ''d'']
   \<and> relativePathArray ''/'' ''/a/b/baz/c/d/f.txt'' ''baz''
       = [''..'', ''a'', ''b'', ''baz'', ''c'', ''d'']"
  by code_simp

text \<open>
  No absolute working directory gives the example of the comment: the resolved
  \<^verbatim>\<open>baz\<close> always ends in the segment \<^verbatim>\<open>baz\<close>, so the result either starts with
  \<^verbatim>\<open>..\<close> or is what lies below \<^verbatim>\<open>baz\<close>.
\<close>

lemma from_parts:
  assumes "isAbsolute cwd"
  shows "trim (split_on CHR ''/'' (drop 1 (path_resolve cwd ''baz'')))
           = normalizeArray (split_on CHR ''/'' cwd) False [] @ [''baz'']"
proof -
  let ?M = "normalizeArray (split_on CHR ''/'' cwd) False []"
  have sp: "split_on CHR ''/'' (cwd @ ''/baz/'') = split_on CHR ''/'' cwd @ [''baz'', []]"
    using split_on_append_sep[of "CHR ''/''" cwd "''baz/''"] by simp
  have N: "normalizeArray (split_on CHR ''/'' (cwd @ ''/baz/'')) False [] = ?M @ [''baz'']"
    by (simp add: sp normalizeArray_append)
  have el: "\<forall>x\<in>set (?M @ [''baz'']). x \<noteq> [] \<and> CHR ''/'' \<notin> set x"
    using normalizeArray_elements[of "CHR ''/''" "split_on CHR ''/'' cwd" "[]" False]
    by (auto dest: split_on_free)
  have res: "path_resolve cwd ''baz'' = ''/'' @ join_with ''/'' (?M @ [''baz''])"
    using assms by (simp add: path_resolve_def isAbsolute_def N Let_def)
  have "split_on CHR ''/'' (join_with ''/'' (?M @ [''baz''])) = ?M @ [''baz'']"
    by (rule split_on_join) (use el in auto)
  with el show ?thesis by (simp add: res trim_nonempty)
qed

lemma to_parts:
  "trim (split_on CHR ''/'' (drop 1 (path_resolve cwd ''/a/b/baz/c/d''))) = [''a'', ''b'', ''baz'', ''c'', ''d'']"
proof -
  have "isAbsolute ''/a/b/baz/c/d''" by code_simp
  then have "path_resolve cwd ''/a/b/baz/c/d'' = path_resolve [] ''/a/b/baz/c/d''"
    by (rule path_resolve_absolute)
  moreover have "trim (split_on CHR ''/'' (drop 1 (path_resolve [] ''/a/b/baz/c/d''))) = [''a'', ''b'', ''baz'', ''c'', ''d'']"
    by code_simp
  ultimately show ?thesis by simp
qed

lemma relativePathArray_never_the_comment_example:
  assumes "isAbsolute cwd"
  shows "relativePathArray cwd ''/a/b/baz/c/d/f.txt'' ''baz'' \<noteq> [''baz'', ''c'', ''d'']"
proof
  let ?M = "normalizeArray (split_on CHR ''/'' cwd) False []"
  let ?T = "[''a'', ''b'', ''baz'', ''c'', ''d'']"
  let ?n = "samePartsLength (?M @ [''baz'']) ?T"
  let ?out = "replicate (length (?M @ [''baz'']) - ?n) ''..'' @ drop ?n ?T"
  assume eq: "relativePathArray cwd ''/a/b/baz/c/d/f.txt'' ''baz'' = [''baz'', ''c'', ''d'']"
  have dn: "path_dirname ''/a/b/baz/c/d/f.txt'' = ''/a/b/baz/c/d''" by code_simp
  have keys: "path_relative cwd ''baz'' ''/a/b/baz/c/d'' = join_with ''/'' ?out"
    by (simp only: path_relative_def from_parts[OF assms] to_parts Let_def)
  from eq have ne: "join_with ''/'' ?out \<noteq> []" and sp: "split_on CHR ''/'' (join_with ''/'' ?out) = [''baz'', ''c'', ''d'']"
    by (auto simp: relativePathArray_def dn keys Let_def split: if_splits)
  from ne have out_ne: "?out \<noteq> []" by auto
  have "\<forall>x\<in>set ?out. CHR ''/'' \<notin> set x"
    by (auto dest!: in_set_dropD)
  from split_on_join[OF out_ne this] sp have out: "?out = [''baz'', ''c'', ''d'']" by simp
  have k0: "length (?M @ [''baz'']) - ?n = 0"
  proof (rule ccontr)
    assume "length (?M @ [''baz'']) - ?n \<noteq> 0"
    then obtain k where "length (?M @ [''baz'']) - ?n = Suc k" by (cases "length (?M @ [''baz'']) - ?n") auto
    with out show False by simp
  qed
  with out have dr: "drop ?n ?T = [''baz'', ''c'', ''d'']" by simp
  have n2: "?n = 2"
  proof -
    from dr have "length (drop ?n ?T) = 3" by simp
    then show ?thesis by simp
  qed
  from k0 n2 samePartsLength_le[of "?M @ [''baz'']" ?T] have "length ?M = 1" by simp
  then obtain m where M: "?M = [m]" by (cases ?M) auto
  from n2 show False by (simp add: M split: if_splits)
qed


lemma relativePathArray_not_found: "relativePathArray ''/'' ''/a/b/f.txt'' ''zzz'' = []"
  by code_simp

lemma relativePathArray_substring_only:
  "relativePathArray ''/'' ''/a/b/f.txt'' ''/b'' = [''..'', ''a'', ''b'']"
  by code_simp

lemma relativePathArray_parse_no_guard:
  "relativePathArray_parse ''/'' ''/a/b/f.txt'' ''zzz'' = [''..'', ''a'', ''b'']"
  by code_simp

section \<open>JavaScript values\<close>

text \<open>
  An object is the list of its enumerable own properties in enumeration order (the
  order of \<^verbatim>\<open>for ... in\<close>); an array is an object whose property names are its
  indices. Reading a missing property yields \<^verbatim>\<open>undefined\<close>; writing a property keeps
  the position of an existing name and appends a new one.
\<close>

datatype jsval = Undefined | Null | Bool bool | Num int | Str string | Obj "(string \<times> jsval) list"

datatype error = TypeError | SyntaxError | ReadError | ParseError
  | ReservedPropertyError string string

type_synonym props = "(string \<times> jsval) list"

fun getprop :: "props \<Rightarrow> string \<Rightarrow> jsval" where
  "getprop [] k = Undefined"
| "getprop ((k', v) # kvs) k = (if k' = k then v else getprop kvs k)"

fun setprop :: "props \<Rightarrow> string \<Rightarrow> jsval \<Rightarrow> props" where
  "setprop [] k v = [(k, v)]"
| "setprop ((k', v') # kvs) k v = (if k' = k then (k, v) # kvs else (k', v') # setprop kvs k v)"

section \<open>The file tree reader (parse helpers)\<close>

text \<open>
  A content parser maps the raw text and the file path to a value, or throws. A rule of
  the \<^verbatim>\<open>parsers\<close> option may lack either field. \<^verbatim>\<open>new RegExp(pattern).test(filepath)\<close>
  belongs to the engine: \<open>regexp_test pattern filepath\<close> is its answer, \<open>None\<close> when
  the pattern does not compile (a \<^verbatim>\<open>SyntaxError\<close>). The \<^verbatim>\<open>parsers\<close> object is the list
  of its entries in enumeration order. An absent or empty \<^verbatim>\<open>pattern\<close> is falsy, so its
  rule is passed over; \<open>matchParser\<close> returns \<open>None\<close> for \<^verbatim>\<open>undefined\<close>, the
  \<^verbatim>\<open>parseFn\<close> of a matching rule that has none.
\<close>

type_synonym parser = "string \<Rightarrow> string \<Rightarrow> error + jsval"

record rule =
  pattern :: "string option"
  parseFn :: "parser option"

definition default_parser :: parser where
  "default_parser contents filepath = Inr (Obj [(''contents'', Str contents)])"

fun matchParser_loop ::
  "(string \<Rightarrow> string \<Rightarrow> bool option) \<Rightarrow> string \<Rightarrow> (string \<times> rule) list
     \<Rightarrow> error + parser option option" where
  "matchParser_loop regexp_test filepath [] = Inr None"
| "matchParser_loop regexp_test filepath ((parserKey, r) # rest) =
     (case pattern r of
        None \<Rightarrow> matchParser_loop regexp_test filepath rest
      | Some p \<Rightarrow>
          (if p = [] then matchParser_loop regexp_test filepath rest
           else (case regexp_test p filepath of
                   None \<Rightarrow> Inl SyntaxError
                 | Some True \<Rightarrow> Inr (Some (parseFn r))
                 | Some False \<Rightarrow> matchParser_loop regexp_test filepath rest)))"

definition matchParser ::
  "(string \<Rightarrow> string \<Rightarrow> bool option) \<Rightarrow> string \<Rightarrow> (string \<times> rule) list
     \<Rightarrow> error + parser option" where
  "matchParser regexp_test filepath parsers =
     (case matchParser_loop regexp_test filepath parsers of
        Inl e \<Rightarrow> Inl e
      | Inr (Some f) \<Rightarrow> Inr f
      | Inr None \<Rightarrow>
          Inr (Some (case map_of parsers ''default'' of
                       None \<Rightarrow> default_parser
                     | Some d \<Rightarrow> (case parseFn d of None \<Rightarrow> default_parser | Some f \<Rightarrow> f))))"

definition rule_skipped :: "(string \<Rightarrow> string \<Rightarrow> bool option) \<Rightarrow> string \<Rightarrow> rule \<Rightarrow> bool" where
  "rule_skipped regexp_test filepath r =
     (case pattern r of None \<Rightarrow> True
      | Some p \<Rightarrow> p = [] \<or> regexp_test p filepath = Some False)"

definition rule_matches :: "(string \<Rightarrow> string \<Rightarrow> bool option) \<Rightarrow> string \<Rightarrow> rule \<Rightarrow> bool" where
  "rule_matches regexp_test filepath r =
     (case pattern r of None \<Rightarrow> False
      | Some p \<Rightarrow> p \<noteq> [] \<and> regexp_test p filepath = Some True)"


text \<open>
  The claim's wording of \<^verbatim>\<open>matchParser\<close>, kept apart from the code: the first rule
  whose pattern tests true gives its \<^verbatim>\<open>parseFn\<close>; without a match a \<^verbatim>\<open>default\<close> rule
  that is present gives its \<^verbatim>\<open>parseFn\<close>; otherwise the wrapping function.
\<close>

definition pattern_matches :: "(string \<Rightarrow> string \<Rightarrow> bool option) \<Rightarrow> string \<Rightarrow> rule \<Rightarrow> bool" where
  "pattern_matches regexp_test filepath r =
     (case pattern r of None \<Rightarrow> False | Some p \<Rightarrow> regexp_test p filepath = Some True)"

definition matchParser_spec ::
  "(string \<Rightarrow> string \<Rightarrow> bool option) \<Rightarrow> string \<Rightarrow> (string \<times> rule) list
     \<Rightarrow> error + parser option" where
  "matchParser_spec regexp_test filepath parsers =
     (case find (\<lambda>kr. pattern_matches regexp_test filepath (snd kr)) parsers of
        Some kr \<Rightarrow> Inr (parseFn (snd kr))
      | None \<Rightarrow>
          (case map_of parsers ''default'' of
             Some d \<Rightarrow> Inr (parseFn d)
           | None \<Rightarrow> Inr (Some default_parser)))"

text \<open>
  \<^verbatim>\<open>readFiles\<close>: \<open>paths\<close> is what the glob resolved to, \<open>readFile\<close> the file system
  (\<open>None\<close> when a read fails). \<^verbatim>\<open>Object.assign\<close> throws on \<^verbatim>\<open>undefined\<close> and
  \<^verbatim>\<open>null\<close>; a boolean or a number is boxed, and the box has no enumerable property of
  its own before the assignment. \<^verbatim>\<open>Promise.all\<close> keeps the order of \<open>paths\<close>; of
  several failures the model reports the first in that order.
\<close>

fun object_assign :: "jsval \<Rightarrow> props \<Rightarrow> error + jsval" where
  "object_assign Undefined src = Inl TypeError"
| "object_assign Null src = Inl TypeError"
| "object_assign (Obj kvs) src = Inr (Obj (fold (\<lambda>(k, v) acc. setprop acc k v) src kvs))"
| "object_assign _ src = Inr (Obj (fold (\<lambda>(k, v) acc. setprop acc k v) src []))"

definition read_record ::
  "(string \<Rightarrow> string \<Rightarrow> bool option) \<Rightarrow> (string \<times> rule) list \<Rightarrow> string \<Rightarrow> string
     \<Rightarrow> error + jsval" where
  "read_record regexp_test parsers filepath fileData =
     (case matchParser regexp_test filepath parsers of
        Inl e \<Rightarrow> Inl e
      | Inr None \<Rightarrow> Inl TypeError
      | Inr (Some parser) \<Rightarrow>
          (case parser fileData filepath of
             Inl e \<Rightarrow> Inl e
           | Inr parsed \<Rightarrow>
               object_assign
                 (case parsed of Str s \<Rightarrow> Obj [(''contents'', Str s)] | _ \<Rightarrow> parsed)
                 [(''path'', Str filepath)]))"

fun readFiles_each ::
  "(string \<Rightarrow> string \<Rightarrow> bool option) \<Rightarrow> (string \<times> rule) list \<Rightarrow> (string \<Rightarrow> string option)
     \<Rightarrow> string list \<Rightarrow> error + jsval list" where
  "readFiles_each regexp_test parsers readFile [] = Inr []"
| "readFiles_each regexp_test parsers readFile (filepath # rest) =
     (case readFile filepath of
        None \<Rightarrow> Inl ReadError
      | Some fileData \<Rightarrow>
          (case read_record regexp_test parsers filepath fileData of
             Inl e \<Rightarrow> Inl e
           | Inr r \<Rightarrow>
               (case readFiles_each regexp_test parsers readFile rest of
                  Inl e \<Rightarrow> Inl e
                | Inr rs \<Rightarrow> Inr (r # rs))))"

definition readFiles ::
  "(string \<Rightarrow> string \<Rightarrow> bool option) \<Rightarrow> (string \<Rightarrow> string option) \<Rightarrow> string list
     \<Rightarrow> (string \<times> rule) list \<Rightarrow> error + jsval list" where
  "readFiles regexp_test readFile paths parsers = readFiles_each regexp_test parsers readFile paths"

fun prop_of :: "jsval \<Rightarrow> string \<Rightarrow> jsval" where
  "prop_of (Obj kvs) k = getprop kvs k"
| "prop_of _ k = Undefined"


section \<open>Claims on the file tree reader\<close>

lemma loop_skipped:
  "list_all (\<lambda>kr. rule_skipped t fp (snd kr)) pre \<Longrightarrow>
   matchParser_loop t fp (pre @ rest) = matchParser_loop t fp rest"
  by (induction pre) (auto simp: rule_skipped_def split: option.splits)

lemma loop_first:
  assumes "list_all (\<lambda>kr. rule_skipped t fp (snd kr)) pre" "rule_matches t fp r"
  shows "matchParser_loop t fp (pre @ (k, r) # post) = Inr (Some (parseFn r))"
  using assms by (simp add: loop_skipped) (auto simp: rule_matches_def split: option.splits)

lemma loop_none:
  assumes "list_all (\<lambda>kr. rule_skipped t fp (snd kr)) ps"
  shows "matchParser_loop t fp ps = Inr None"
  using loop_skipped[OF assms, of "[]"] by simp

text \<open>
  Claim C9, as the code has it. Rules are tried in enumeration order; a rule is passed
  over when its pattern is absent or empty or tests false. The first rule whose pattern
  is non-empty and tests true decides: the result is its \<^verbatim>\<open>parseFn\<close>. When every rule
  is passed over, the result is the \<^verbatim>\<open>parseFn\<close> of the \<^verbatim>\<open>default\<close> rule if that rule
  is present and has one, and otherwise the function that wraps the text as
  \<^verbatim>\<open>{contents: text}\<close>.
\<close>

theorem matchParser_amended:
  "(list_all (\<lambda>kr. rule_skipped t fp (snd kr)) pre \<and> rule_matches t fp r
      \<longrightarrow> matchParser t fp (pre @ (k, r) # post) = Inr (parseFn r))
   \<and> (list_all (\<lambda>kr. rule_skipped t fp (snd kr)) ps
      \<longrightarrow> matchParser t fp ps =
          Inr (Some (case map_of ps ''default'' of
                       None \<Rightarrow> default_parser
                     | Some d \<Rightarrow> (case parseFn d of None \<Rightarrow> default_parser | Some f \<Rightarrow> f))))
   \<and> default_parser text p = Inr (Obj [(''contents'', Str text)])"
  by (auto simp: matchParser_def loop_first loop_none default_parser_def)


theorem matchParser_amended_witness:
  "list_all (\<lambda>kr. rule_skipped (\<lambda>p s. Some (suffix p s)) ''a.html'' (snd kr))
     [(''markdown'', \<lparr>pattern = Some ''.md'', parseFn = Some (\<lambda>c f. Inr (Str c))\<rparr>)]
   \<and> rule_matches (\<lambda>p s. Some (suffix p s)) ''a.html''
        \<lparr>pattern = Some ''.html'', parseFn = Some (\<lambda>c f. Inr Null)\<rparr>
   \<and> matchParser (\<lambda>p s. Some (suffix p s)) ''a.html''
        ([(''markdown'', \<lparr>pattern = Some ''.md'', parseFn = Some (\<lambda>c f. Inr (Str c))\<rparr>)]
         @ (''content'', \<lparr>pattern = Some ''.html'', parseFn = Some (\<lambda>c f. Inr Null)\<rparr>)
         # [(''default'', \<lparr>pattern = None, parseFn = None\<rparr>)])
        = Inr (Some (\<lambda>c f. Inr Null))
   \<and> list_all (\<lambda>kr. rule_skipped (\<lambda>p s. Some (suffix p s)) ''a.txt'' (snd kr))
        [(''markdown'', \<lparr>pattern = Some ''.md'', parseFn = Some (\<lambda>c f. Inr (Str c))\<rparr>),
         (''default'', \<lparr>pattern = None, parseFn = Some (\<lambda>c f. Inr (Num 1))\<rparr>)]
   \<and> matchParser (\<lambda>p s. Some (suffix p s)) ''a.txt''
        [(''markdown'', \<lparr>pattern = Some ''.md'', parseFn = Some (\<lambda>c f. Inr (Str c))\<rparr>),
         (''default'', \<lparr>pattern = None, parseFn = Some (\<lambda>c f. Inr (Num 1))\<rparr>)]
        = Inr (Some (\<lambda>c f. Inr (Num 1)))"
  using matchParser_amended [of "\<lambda>p s. Some (suffix p s)" "''a.html''"
      "[(''markdown'', \<lparr>pattern = Some ''.md'', parseFn = Some (\<lambda>c f. Inr (Str c))\<rparr>)]"
      "\<lparr>pattern = Some ''.html'', parseFn = Some (\<lambda>c f. Inr Null)\<rparr>"
      "''content''" "[(''default'', \<lparr>pattern = None, parseFn = None\<rparr>)]"]
    matchParser_amended [of "\<lambda>p s. Some (suffix p s)" "''a.txt''" "[]"
      "\<lparr>pattern = None, parseFn = None\<rparr>" "[]" "[]"
      "[(''markdown'', \<lparr>pattern = Some ''.md'', parseFn = Some (\<lambda>c f. Inr (Str c))\<rparr>),
        (''default'', \<lparr>pattern = None, parseFn = Some (\<lambda>c f. Inr (Num 1))\<rparr>)]"]
  by (simp add: rule_skipped_def rule_matches_def suffix_def)

text \<open>
  Claim C9 as stated fails where a \<^verbatim>\<open>default\<close> rule is present without a
  \<^verbatim>\<open>parseFn\<close>: the claim returns that rule's \<^verbatim>\<open>parseFn\<close> (\<^verbatim>\<open>undefined\<close>), the code
  falls through to the wrapping function.
\<close>

theorem matchParser_default_without_parseFn:
  "matchParser (\<lambda>p s. Some False) ''a.html'' [(''default'', \<lparr>pattern = None, parseFn = None\<rparr>)]
     = Inr (Some default_parser)
   \<and> matchParser_spec (\<lambda>p s. Some False) ''a.html'' [(''default'', \<lparr>pattern = None, parseFn = None\<rparr>)]
     = Inr None"
  by (simp add: matchParser_def matchParser_spec_def pattern_matches_def)




lemma object_assign_defined:
  "v \<noteq> Undefined \<Longrightarrow> v \<noteq> Null \<Longrightarrow> \<exists>r. object_assign v src = Inr r"
  by (cases v) simp_all

lemma readFiles_succeeds:
  assumes "\<forall>p\<in>set paths. \<exists>raw parser parsed. readFile p = Some raw
             \<and> matchParser t p parsers = Inr (Some parser) \<and> parser raw p = Inr parsed
             \<and> parsed \<noteq> Undefined \<and> parsed \<noteq> Null"
  shows "\<exists>records. readFiles t readFile paths parsers = Inr records"
  using assms
proof (induction paths)
  case Nil
  then show ?case by (simp add: readFiles_def)
next
  case (Cons p ps)
  from Cons.prems obtain raw parser parsed where
    f: "readFile p = Some raw" and m: "matchParser t p parsers = Inr (Some parser)"
    and q: "parser raw p = Inr parsed" and d: "parsed \<noteq> Undefined" "parsed \<noteq> Null"
    by auto
  from d have "(case parsed of Str s \<Rightarrow> Obj [(''contents'', Str s)] | _ \<Rightarrow> parsed) \<noteq> Undefined"
    "(case parsed of Str s \<Rightarrow> Obj [(''contents'', Str s)] | _ \<Rightarrow> parsed) \<noteq> Null"
    by (cases parsed; simp)+
  from object_assign_defined[OF this] m q obtain r where
    r: "read_record t parsers p raw = Inr r"
    by (auto simp: read_record_def)
  from Cons.IH Cons.prems obtain rs where "readFiles t readFile ps parsers = Inr rs"
    by auto
  with f r show ?case by (simp add: readFiles_def)
qed




section \<open>The collection renderer\<close>

text \<open>
  The render pass mutates the patterns tree and, through \<^verbatim>\<open>deepObj\<close>, the template
  tree in place. The model passes both along and returns them updated; it takes the two
  trees to be finite and to share no object. A node being walked is given together with
  \<open>root\<close>, which rebuilds the whole \<^verbatim>\<open>drizzleData.patterns\<close> around it: that is
  what \<^verbatim>\<open>resourceContext\<close> can see of the tree at the time of the call. The module
  is strict code, so writing a property of a primitive throws.

  \<open>keys_of\<close> lists what \<^verbatim>\<open>for ... in\<close> enumerates (the indices of a string, nothing
  for the other primitives), \<open>child\<close> reads \<^verbatim>\<open>patterns[patternKey]\<close>, and
  \<open>setchild\<close> records in the parent what the walk did to a child object in place.
\<close>

fun string_of_nat :: "nat \<Rightarrow> string" where
  "string_of_nat n =
     (if n < 10 then [''0123456789'' ! n]
      else string_of_nat (n div 10) @ [''0123456789'' ! (n mod 10)])"

declare string_of_nat.simps [simp del]

definition truthy :: "jsval \<Rightarrow> bool" where
  "truthy v = (case v of Undefined \<Rightarrow> False | Null \<Rightarrow> False | Bool b \<Rightarrow> b
                | Num n \<Rightarrow> n \<noteq> 0 | Str s \<Rightarrow> s \<noteq> [] | Obj _ \<Rightarrow> True)"

definition keys_of :: "jsval \<Rightarrow> string list" where
  "keys_of v = (case v of Obj kvs \<Rightarrow> map fst kvs
                | Str s \<Rightarrow> map string_of_nat [0..<length s]
                | _ \<Rightarrow> [])"

definition child :: "jsval \<Rightarrow> string \<Rightarrow> jsval" where
  "child v k = (case v of Obj kvs \<Rightarrow> getprop kvs k
                | Str s \<Rightarrow> (case find (\<lambda>i. string_of_nat i = k) [0..<length s] of
                              Some i \<Rightarrow> Str [s ! i] | None \<Rightarrow> Undefined)
                | _ \<Rightarrow> Undefined)"

definition setchild :: "jsval \<Rightarrow> string \<Rightarrow> jsval \<Rightarrow> jsval" where
  "setchild v k c = (case v of Obj kvs \<Rightarrow> Obj (setprop kvs k c) | _ \<Rightarrow> v)"

text \<open>
  \<^verbatim>\<open>deepObj\<close> as the helpers file has it, the only \<^verbatim>\<open>deepObj\<close> among the
  sources: every missing or falsy entry on the way is replaced by a fresh object, and the
  entry reached last is returned. The result pairs the updated object with that entry.
  The renderer imports its \<^verbatim>\<open>deepObj\<close> from \<^verbatim>\<open>utils/object\<close>, which is not among
  the sources, and calls it with a third argument \<^verbatim>\<open>false\<close>; this function has two
  parameters, so the third argument changes nothing. The function reads own properties
  only (a name inherited from the prototype, such as \<^verbatim>\<open>constructor\<close>, counts as
  missing here), and a new property is put last, also where its name is integer-like
  and the engine would enumerate it first.
\<close>

fun deepObj :: "string list \<Rightarrow> jsval \<Rightarrow> error + jsval \<times> jsval" where
  "deepObj [] obj = Inr (obj, obj)"
| "deepObj (key # rest) (Obj kvs) =
     (let entry = (if truthy (getprop kvs key) then getprop kvs key else Obj [])
      in case deepObj rest entry of
           Inl e \<Rightarrow> Inl e
         | Inr (entry', r) \<Rightarrow> Inr (Obj (setprop kvs key entry'), r))"
| "deepObj (key # rest) _ = Inl TypeError"

text \<open>
  What the render pass takes from outside the repository's files: the configured layout
  key \<^verbatim>\<open>options.layouts.collection\<close>, and the functions \<^verbatim>\<open>applyTemplate\<close> and
  \<^verbatim>\<open>resourceContext\<close>, which the specification describes as returning a string and a
  render context. \<open>resourceContext\<close> receives the collection, the patterns tree and the
  template tree as they are at the call.
\<close>

record drizzle =
  layoutKey :: string
  applyTemplate :: "jsval \<Rightarrow> jsval \<Rightarrow> string"
  resourceContext :: "jsval \<Rightarrow> jsval \<Rightarrow> jsval \<Rightarrow> jsval"

definition renderCollection ::
  "drizzle \<Rightarrow> jsval \<Rightarrow> jsval \<Rightarrow> (jsval \<Rightarrow> jsval) \<Rightarrow> string \<Rightarrow> error + jsval \<times> jsval" where
  "renderCollection dd patterns templates root collectionKey =
     (case deepObj (split_on CHR ''.'' (layoutKey dd)) templates of
        Inl e \<Rightarrow> Inl e
      | Inr (templates', layoutObj) \<Rightarrow>
          (case child patterns ''collection'' of
             Obj coll \<Rightarrow>
               Inr (setchild patterns ''collection''
                      (Obj (setprop coll ''contents''
                         (Str (applyTemplate dd (prop_of layoutObj ''contents'')
                                 (resourceContext dd (Obj coll) (root patterns) templates'))))),
                    templates')
           | _ \<Rightarrow> Inl TypeError))"

text \<open>
  \<open>walk_keys\<close> is the loop of \<^verbatim>\<open>walkCollections\<close> with the keys still to visit;
  \<open>None\<close> stands for a walk that does not return.
\<close>

partial_function (option) walk_keys ::
  "drizzle \<Rightarrow> string list \<Rightarrow> jsval \<Rightarrow> jsval \<Rightarrow> (jsval \<Rightarrow> jsval) \<Rightarrow> string
     \<Rightarrow> (error + jsval \<times> jsval) option" where
  "walk_keys dd ks patterns templates root currentKey =
     (case ks of
        [] \<Rightarrow> Some (Inr (patterns, templates))
      | patternKey # rest \<Rightarrow>
          (if patternKey = ''collection'' then
             (case renderCollection dd patterns templates root currentKey of
                Inl e \<Rightarrow> Some (Inl e)
              | Inr (patterns', templates') \<Rightarrow>
                  walk_keys dd rest patterns' templates' root currentKey)
           else
             Option.bind
               (walk_keys dd (keys_of (child patterns patternKey)) (child patterns patternKey)
                  templates (\<lambda>c. root (setchild patterns patternKey c)) patternKey)
               (\<lambda>r. case r of
                  Inl e \<Rightarrow> Some (Inl e)
                | Inr (c', templates') \<Rightarrow>
                    walk_keys dd rest (setchild patterns patternKey c') templates' root currentKey)))"

definition walkCollections ::
  "drizzle \<Rightarrow> jsval \<Rightarrow> jsval \<Rightarrow> (jsval \<Rightarrow> jsval) \<Rightarrow> string \<Rightarrow> (error + jsval \<times> jsval) option" where
  "walkCollections dd patterns templates root currentKey =
     walk_keys dd (keys_of patterns) patterns templates root currentKey"

definition renderCollections :: "drizzle \<Rightarrow> jsval \<Rightarrow> jsval \<Rightarrow> (error + jsval \<times> jsval) option" where
  "renderCollections dd patterns templates = walkCollections dd patterns templates (\<lambda>p. p) ''patterns''"

text \<open>
  Trees on which the walk is studied. In a \<open>walkable\<close> tree every value reached through
  keys other than \<^verbatim>\<open>collection\<close> is an object with distinct property names or a
  primitive without enumerable keys; a \<open>renderable\<close> tree is one whose
  \<^verbatim>\<open>collection\<close> entries are objects besides. \<open>has_path keys templates\<close> says that
  the template tree holds a truthy entry at every step of the layout path.
  \<open>only_contents p p'\<close> relates a tree to the same tree in which every
  \<^verbatim>\<open>collection\<close> entry met by the walk has had its \<^verbatim>\<open>contents\<close> set to a string.
\<close>

inductive walkable :: "jsval \<Rightarrow> bool" where
  walkable_Undefined: "walkable Undefined"
| walkable_Null: "walkable Null"
| walkable_Bool: "walkable (Bool b)"
| walkable_Num: "walkable (Num n)"
| walkable_Str: "walkable (Str [])"
| walkable_Obj: "distinct (map fst kvs) \<Longrightarrow>
     (\<And>k v. (k, v) \<in> set kvs \<Longrightarrow> k \<noteq> ''collection'' \<Longrightarrow> walkable v) \<Longrightarrow>
     walkable (Obj kvs)"

inductive renderable :: "jsval \<Rightarrow> bool" where
  renderable_Undefined: "renderable Undefined"
| renderable_Null: "renderable Null"
| renderable_Bool: "renderable (Bool b)"
| renderable_Num: "renderable (Num n)"
| renderable_Str: "renderable (Str [])"
| renderable_Obj: "distinct (map fst kvs) \<Longrightarrow>
     (\<And>k v. (k, v) \<in> set kvs \<Longrightarrow> k \<noteq> ''collection'' \<Longrightarrow> renderable v) \<Longrightarrow>
     (\<And>v. (''collection'', v) \<in> set kvs \<Longrightarrow> \<exists>coll. v = Obj coll) \<Longrightarrow>
     renderable (Obj kvs)"

fun has_path :: "string list \<Rightarrow> jsval \<Rightarrow> bool" where
  "has_path [] v = True"
| "has_path (k # ks) (Obj kvs) = (truthy (getprop kvs k) \<and> has_path ks (getprop kvs k))"
| "has_path (k # ks) _ = False"

definition rendered_entry :: "string \<times> jsval \<Rightarrow> string \<times> jsval \<Rightarrow> bool" where
  "rendered_entry a b =
     (fst b = fst a \<and> fst a = ''collection'' \<and>
      (\<exists>coll s. snd a = Obj coll \<and> snd b = Obj (setprop coll ''contents'' (Str s))))"

inductive only_contents :: "jsval \<Rightarrow> jsval \<Rightarrow> bool" where
  only_contents_leaf: "keys_of v = [] \<Longrightarrow> only_contents v v"
| only_contents_Obj:
    "list_all2 (\<lambda>a b. rendered_entry a b \<or>
        (fst b = fst a \<and> fst a \<noteq> ''collection'' \<and> only_contents (snd a) (snd b))) kvs kvs' \<Longrightarrow>
     only_contents (Obj kvs) (Obj kvs')"

definition entry_rel :: "string \<times> jsval \<Rightarrow> string \<times> jsval \<Rightarrow> bool" where
  "entry_rel a b = (rendered_entry a b \<or>
        (fst b = fst a \<and> fst a \<noteq> ''collection'' \<and> only_contents (snd a) (snd b)))"

definition sample_drizzle :: drizzle where
  "sample_drizzle = \<lparr>layoutKey = ''collection'', applyTemplate = (\<lambda>l c. ''page''), resourceContext = (\<lambda>c p t. c)\<rparr>"

definition sample_patterns :: jsval where
  "sample_patterns = Obj [(''collection'', Obj [(''name'', Str ''Patterns''),
                (''items'', Obj [(''pink'', Obj [(''contents'', Str ''<p>pink</p>'')])])]),
             (''components'', Obj [(''collection'', Obj [(''items'', Obj [])])])]"

definition sample_templates :: jsval where
  "sample_templates = Obj [(''collection'', Obj [(''contents'', Str ''layout'')])]"

section \<open>Facts about the walk\<close>

lemma walk_keys_Nil: "walk_keys dd [] patterns templates root currentKey = Some (Inr (patterns, templates))"
  by (subst walk_keys.simps) simp

lemma walk_keys_Cons:
  "walk_keys dd (patternKey # rest) patterns templates root currentKey =
     (if patternKey = ''collection'' then
        (case renderCollection dd patterns templates root currentKey of
           Inl e \<Rightarrow> Some (Inl e)
         | Inr (patterns', templates') \<Rightarrow>
             walk_keys dd rest patterns' templates' root currentKey)
      else
        Option.bind
          (walk_keys dd (keys_of (child patterns patternKey)) (child patterns patternKey)
             templates (\<lambda>c. root (setchild patterns patternKey c)) patternKey)
          (\<lambda>r. case r of
             Inl e \<Rightarrow> Some (Inl e)
           | Inr (c', templates') \<Rightarrow>
               walk_keys dd rest (setchild patterns patternKey c') templates' root currentKey))"
  by (subst walk_keys.simps) simp

lemma key0: "string_of_nat 0 = ''0''"
  by (simp add: string_of_nat.simps)

lemma char_diverges_aux:
  assumes "walk_keys dd ks p t r k = Some y"
  shows "\<not> (ks = [''0''] \<and> (\<exists>c. p = Str [c]))"
proof (rule walk_keys.raw_induct[where P = "\<lambda>dd ks p t r k y. \<not> (ks = [''0''] \<and> (\<exists>c. p = Str [c]))", OF _ assms], goal_cases)
  case (1 f dd ks p t r k y)
  show ?case
  proof
    assume "ks = [''0''] \<and> (\<exists>c. p = Str [c])"
    then obtain c where ks: "ks = [''0'']" and p: "p = Str [c]" by blast
    from 1(2) obtain z where "f dd [''0''] (Str [c]) t (\<lambda>x. r (setchild p ''0'' x)) ''0'' = Some z"
      by (auto simp: ks p keys_of_def child_def key0 split: Option.bind_splits)
    from 1(1)[OF this] show False by simp
  qed
qed

lemma char_diverges: "walk_keys dd [''0''] (Str [c]) templates root key = None"
  using char_diverges_aux[of dd "[''0'']" "Str [c]" templates root key]
  by (cases "walk_keys dd [''0''] (Str [c]) templates root key") auto

lemma string_diverges:
  assumes "s \<noteq> []"
  shows "walk_keys dd (keys_of (Str s)) (Str s) templates root key = None"
proof -
  from assms obtain c cs where s: "s = c # cs" by (cases s) auto
  have ks: "keys_of (Str s) = ''0'' # map string_of_nat [Suc 0..<length s]"
    by (simp add: keys_of_def s upt_conv_Cons key0 del: upt_Suc)
  have ch: "child (Str s) ''0'' = Str [c]"
    by (simp add: child_def s upt_conv_Cons key0 del: upt_Suc)
  have k1: "keys_of (Str [c]) = [''0'']"
    by (simp add: keys_of_def key0)
  show ?thesis
    unfolding ks by (subst walk_keys_Cons) (simp add: ch k1 char_diverges)
qed

lemma getprop_fresh: "k \<notin> fst ` set pre \<Longrightarrow> getprop (pre @ (k, v) # rest) k = v"
  by (induction pre) auto

lemma setprop_fresh: "k \<notin> fst ` set pre \<Longrightarrow> setprop (pre @ (k, v) # rest) k v' = pre @ (k, v') # rest"
  by (induction pre) auto

lemma getprop_truthy_key: "truthy (getprop kvs k) \<Longrightarrow> setprop kvs k (getprop kvs k) = kvs"
  by (induction kvs) (auto simp: truthy_def)

lemma deepObj_has_path: "has_path ks v \<Longrightarrow> \<exists>r. deepObj ks v = Inr (v, r)"
proof (induction ks v rule: has_path.induct)
  case (2 k ks kvs)
  then obtain r where "deepObj ks (getprop kvs k) = Inr (getprop kvs k, r)" by auto
  with 2 show ?case by (simp add: getprop_truthy_key)
qed simp_all

lemma renderCollection_shape:
  assumes "renderCollection dd (Obj kvs) templates root key = Inr (p', t')"
  shows "\<exists>new. p' = Obj (setprop kvs ''collection'' new)"
  using assms
  by (auto simp: renderCollection_def child_def setchild_def split: sum.splits jsval.splits)

lemma renderCollection_has_path:
  assumes "has_path (split_on CHR ''.'' (layoutKey dd)) templates"
    and "getprop kvs ''collection'' = Obj coll"
  shows "\<exists>s. renderCollection dd (Obj kvs) templates root key
           = Inr (Obj (setprop kvs ''collection'' (Obj (setprop coll ''contents'' (Str s)))), templates)"
proof -
  from deepObj_has_path[OF assms(1)] obtain r where
    "deepObj (split_on CHR ''.'' (layoutKey dd)) templates = Inr (templates, r)" by blast
  with assms(2) show ?thesis
    by (intro exI[of _ "applyTemplate dd (prop_of r ''contents'')
          (resourceContext dd (Obj coll) (root (Obj kvs)) templates)"])
       (simp add: renderCollection_def child_def setchild_def)
qed

lemma walk_loop_terminates:
  assumes "distinct (map fst (pre @ todo))"
    and "\<And>k v templates root key. (k, v) \<in> set todo \<Longrightarrow> k \<noteq> ''collection'' \<Longrightarrow>
           walk_keys dd (keys_of v) v templates root key \<noteq> None"
  shows "walk_keys dd (map fst todo) (Obj (pre @ todo)) templates root key \<noteq> None"
  using assms
proof (induction todo arbitrary: pre templates)
  case Nil
  then show ?case by (simp add: walk_keys_Nil)
next
  case (Cons kv todo)
  obtain k v where kv: "kv = (k, v)" by (cases kv)
  from Cons.prems(1) have fresh: "k \<notin> fst ` set pre" and dist: "\<And>x. distinct (map fst ((pre @ [(k, x)]) @ todo))"
    by (auto simp: kv)
  have sub: "\<And>k v templates root key. (k, v) \<in> set todo \<Longrightarrow> k \<noteq> ''collection'' \<Longrightarrow>
           walk_keys dd (keys_of v) v templates root key \<noteq> None"
    using Cons.prems(2) by (meson list.set_intros(2))
  have rest: "\<And>x t. walk_keys dd (map fst todo) (Obj (pre @ (k, x) # todo)) t root key \<noteq> None"
  proof -
    fix x t
    have "walk_keys dd (map fst todo) (Obj ((pre @ [(k, x)]) @ todo)) t root key \<noteq> None"
      by (rule Cons.IH[OF dist sub])
    then show "walk_keys dd (map fst todo) (Obj (pre @ (k, x) # todo)) t root key \<noteq> None" by simp
  qed
  show ?case
  proof (cases "k = ''collection''")
    case True
    show ?thesis
    proof (cases "renderCollection dd (Obj (pre @ kv # todo)) templates root key")
      case (Inl e)
      with True show ?thesis by (simp add: kv walk_keys_Cons)
    next
      case (Inr r)
      obtain p' t' where r: "r = (p', t')" by (cases r)
      from renderCollection_shape[OF Inr[unfolded r]] obtain new where
        "p' = Obj (setprop (pre @ kv # todo) ''collection'' new)" by blast
      with fresh True have "p' = Obj (pre @ (k, new) # todo)"
        by (simp add: kv setprop_fresh)
      with Inr r True rest[of new t'] show ?thesis
        by (simp add: kv walk_keys_Cons)
    qed
  next
    case False
    have ch: "child (Obj (pre @ kv # todo)) k = v"
      using fresh by (simp add: child_def kv getprop_fresh)
    from Cons.prems(2)[of k v templates "\<lambda>c. root (setchild (Obj (pre @ kv # todo)) k c)" k] False
    obtain r where w: "walk_keys dd (keys_of v) v templates (\<lambda>c. root (setchild (Obj (pre @ kv # todo)) k c)) k = Some r"
      by (auto simp: kv)
    show ?thesis
    proof (cases r)
      case (Inl e)
      with w False ch show ?thesis by (simp add: kv walk_keys_Cons)
    next
      case (Inr cr)
      obtain c' t' where cr: "cr = (c', t')" by (cases cr)
      have "setchild (Obj (pre @ kv # todo)) k c' = Obj (pre @ (k, c') # todo)"
        using fresh by (simp add: setchild_def kv setprop_fresh)
      with w Inr cr False ch rest[of c' t'] show ?thesis
        by (simp add: kv walk_keys_Cons)
    qed
  qed
qed

lemma walkable_terminates:
  "walkable p \<Longrightarrow> walk_keys dd (keys_of p) p templates root key \<noteq> None"
proof (induction p arbitrary: templates root key rule: walkable.induct)
  case (walkable_Obj kvs)
  have "walk_keys dd (map fst kvs) (Obj ([] @ kvs)) templates root key \<noteq> None"
    by (rule walk_loop_terminates) (use walkable_Obj in auto)
  then show ?case by (simp add: keys_of_def)
qed (simp_all add: keys_of_def walk_keys_Nil)


lemma only_contents_ObjI: "list_all2 entry_rel kvs kvs' \<Longrightarrow> only_contents (Obj kvs) (Obj kvs')"
  unfolding entry_rel_def by (rule only_contents_Obj)

lemma walk_loop_frame:
  assumes "has_path (split_on CHR ''.'' (layoutKey dd)) templates"
    and "distinct (map fst (pre @ todo))"
    and "\<And>k v root key. (k, v) \<in> set todo \<Longrightarrow> k \<noteq> ''collection'' \<Longrightarrow>
           \<exists>v'. walk_keys dd (keys_of v) v templates root key = Some (Inr (v', templates))
                \<and> only_contents v v'"
    and "\<And>v. (''collection'', v) \<in> set todo \<Longrightarrow> \<exists>coll. v = Obj coll"
  shows "\<exists>todo'. walk_keys dd (map fst todo) (Obj (pre @ todo)) templates root key
             = Some (Inr (Obj (pre @ todo'), templates))
           \<and> list_all2 entry_rel todo todo'"
  using assms(2-4)
proof (induction todo arbitrary: pre)
  case Nil
  then show ?case by (simp add: walk_keys_Nil)
next
  case (Cons kv todo)
  obtain k v where kv: "kv = (k, v)" by (cases kv)
  from Cons.prems(1) have fresh: "k \<notin> fst ` set pre"
    and dist: "\<And>x. distinct (map fst ((pre @ [(k, x)]) @ todo))"
    by (auto simp: kv)
  have sub1: "\<And>k v root key. (k, v) \<in> set todo \<Longrightarrow> k \<noteq> ''collection'' \<Longrightarrow>
           \<exists>v'. walk_keys dd (keys_of v) v templates root key = Some (Inr (v', templates))
                \<and> only_contents v v'"
    using Cons.prems(2) by (meson list.set_intros(2))
  have sub2: "\<And>v. (''collection'', v) \<in> set todo \<Longrightarrow> \<exists>coll. v = Obj coll"
    using Cons.prems(3) by (meson list.set_intros(2))
  have rest: "\<And>x. \<exists>todo'. walk_keys dd (map fst todo) (Obj (pre @ (k, x) # todo)) templates root key
             = Some (Inr (Obj (pre @ (k, x) # todo'), templates)) \<and> list_all2 entry_rel todo todo'"
    using Cons.IH[OF dist sub1 sub2] by simp
  show ?case
  proof (cases "k = ''collection''")
    case True
    from Cons.prems(3)[of v] True obtain coll where v: "v = Obj coll" by (auto simp: kv)
    have "getprop (pre @ kv # todo) ''collection'' = Obj coll"
      using fresh True by (simp add: kv v getprop_fresh)
    from renderCollection_has_path[OF assms(1) this, of root key] obtain s where
      rc: "renderCollection dd (Obj (pre @ kv # todo)) templates root key
            = Inr (Obj (setprop (pre @ kv # todo) ''collection'' (Obj (setprop coll ''contents'' (Str s)))), templates)"
      by blast
    have sp: "setprop (pre @ kv # todo) ''collection'' (Obj (setprop coll ''contents'' (Str s)))
            = pre @ (k, Obj (setprop coll ''contents'' (Str s))) # todo"
      using fresh True by (simp add: kv setprop_fresh)
    from rest[of "Obj (setprop coll ''contents'' (Str s))"] obtain todo' where
      t: "walk_keys dd (map fst todo) (Obj (pre @ (k, Obj (setprop coll ''contents'' (Str s))) # todo)) templates root key
             = Some (Inr (Obj (pre @ (k, Obj (setprop coll ''contents'' (Str s))) # todo'), templates))"
      and l: "list_all2 entry_rel todo todo'" by blast
    have e: "entry_rel kv (k, Obj (setprop coll ''contents'' (Str s)))"
      using True by (auto simp: entry_rel_def rendered_entry_def kv v)
    have "walk_keys dd (map fst (kv # todo)) (Obj (pre @ kv # todo)) templates root key
            = Some (Inr (Obj (pre @ (k, Obj (setprop coll ''contents'' (Str s))) # todo'), templates))"
      using True rc sp t by (simp add: kv walk_keys_Cons)
    with e l show ?thesis by (intro exI[of _ "(k, Obj (setprop coll ''contents'' (Str s))) # todo'"]) simp
  next
    case False
    have ch: "child (Obj (pre @ kv # todo)) k = v"
      using fresh by (simp add: child_def kv getprop_fresh)
    from Cons.prems(2)[of k v "\<lambda>c. root (setchild (Obj (pre @ kv # todo)) k c)" k] False
    obtain v' where w: "walk_keys dd (keys_of v) v templates (\<lambda>c. root (setchild (Obj (pre @ kv # todo)) k c)) k
          = Some (Inr (v', templates))" and oc: "only_contents v v'"
      by (auto simp: kv)
    have sc: "setchild (Obj (pre @ kv # todo)) k v' = Obj (pre @ (k, v') # todo)"
      using fresh by (simp add: setchild_def kv setprop_fresh)
    from rest[of v'] obtain todo' where
      t: "walk_keys dd (map fst todo) (Obj (pre @ (k, v') # todo)) templates root key
             = Some (Inr (Obj (pre @ (k, v') # todo'), templates))"
      and l: "list_all2 entry_rel todo todo'" by blast
    have e: "entry_rel kv (k, v')"
      using False oc by (simp add: entry_rel_def kv)
    have "walk_keys dd (map fst (kv # todo)) (Obj (pre @ kv # todo)) templates root key
            = Some (Inr (Obj (pre @ (k, v') # todo'), templates))"
      using False w ch sc t by (simp add: kv walk_keys_Cons)
    with e l show ?thesis by (intro exI[of _ "(k, v') # todo'"]) simp
  qed
qed

lemma renderable_frame:
  assumes "renderable p" and "has_path (split_on CHR ''.'' (layoutKey dd)) templates"
  shows "\<exists>p'. walk_keys dd (keys_of p) p templates root key = Some (Inr (p', templates))
           \<and> only_contents p p'"
  using assms(1)
proof (induction p arbitrary: root key rule: renderable.induct)
  case (renderable_Obj kvs)
  have "\<exists>todo'. walk_keys dd (map fst kvs) (Obj ([] @ kvs)) templates root key
             = Some (Inr (Obj ([] @ todo'), templates)) \<and> list_all2 entry_rel kvs todo'"
    by (rule walk_loop_frame[OF assms(2)]) (use renderable_Obj in auto)
  then show ?case by (auto simp: keys_of_def intro: only_contents_ObjI)
qed (auto simp: keys_of_def walk_keys_Nil intro: only_contents_leaf)

lemma renderable_sample_patterns: "renderable sample_patterns"
  unfolding sample_patterns_def
  by (intro renderable.intros) (auto intro!: renderable.intros)

lemma walkable_sample_patterns: "walkable sample_patterns"
  unfolding sample_patterns_def
  by (intro walkable.intros) (auto intro!: walkable.intros)

section \<open>Claims on the collection renderer\<close>

text \<open>
  The frame of the render pass where the layout is there. On a renderable tree, with a
  template tree that holds the layout path, the render pass returns; the template tree
  is the one supplied; and the patterns tree differs from the one supplied only in the
  \<^verbatim>\<open>contents\<close> of the entries keyed \<^verbatim>\<open>collection\<close>, each of which is now a
  string. Everything else in a collection, its items and their own \<^verbatim>\<open>contents\<close>
  included, is as before.
\<close>

theorem renderCollections_frame:
  assumes "renderable patterns" and "has_path (split_on CHR ''.'' (layoutKey dd)) templates"
  shows "\<exists>patterns'. renderCollections dd patterns templates = Some (Inr (patterns', templates))
           \<and> only_contents patterns patterns'"
  using renderable_frame[OF assms] by (simp add: renderCollections_def walkCollections_def)

theorem renderCollections_frame_witness:
  "renderable sample_patterns \<and> has_path (split_on CHR ''.'' (layoutKey sample_drizzle)) sample_templates
   \<and> (\<exists>patterns'. renderCollections sample_drizzle sample_patterns sample_templates = Some (Inr (patterns', sample_templates))
           \<and> only_contents sample_patterns patterns')"
proof -
  have h: "has_path (split_on CHR ''.'' (layoutKey sample_drizzle)) sample_templates"
    by (simp add: sample_drizzle_def sample_templates_def truthy_def)
  from renderCollections_frame[OF renderable_sample_patterns h] renderable_sample_patterns h show ?thesis by blast
qed



text \<open>
  Claim C5, as the code has it. The walk makes no test on a child before recursing into
  it. It returns, with a result or with an exception, on every walkable tree; a value
  without enumerable keys is returned as it is; and on a non-empty string it never
  returns, because the first character of a string is again a non-empty string.
\<close>

theorem walkCollections_terminates:
  "(walkable patterns \<longrightarrow> walkCollections dd patterns templates root key \<noteq> None)
   \<and> (keys_of v = [] \<longrightarrow> walkCollections dd v templates root key = Some (Inr (v, templates)))
   \<and> (s \<noteq> [] \<longrightarrow> walkCollections dd (Str s) templates root key = None)"
  by (simp add: walkCollections_def walkable_terminates walk_keys_Nil string_diverges)

theorem walkCollections_terminates_witness:
  "walkable sample_patterns \<and> walkCollections sample_drizzle sample_patterns sample_templates (\<lambda>p. p) ''patterns'' \<noteq> None
   \<and> keys_of (Num 3) = [] \<and> walkCollections sample_drizzle (Num 3) sample_templates (\<lambda>p. p) ''n'' = Some (Inr (Num 3, sample_templates))
   \<and> ''x'' \<noteq> [] \<and> walkCollections sample_drizzle (Str ''x'') sample_templates (\<lambda>p. p) ''a'' = None"
  using walkCollections_terminates[of sample_patterns sample_drizzle sample_templates "\<lambda>p. p" "''patterns''" "Num 3" "''x''"] walkable_sample_patterns
    walkCollections_terminates[of sample_patterns sample_drizzle sample_templates "\<lambda>p. p" "''n''" "Num 3" "''x''"]
    walkCollections_terminates[of sample_patterns sample_drizzle sample_templates "\<lambda>p. p" "''a''" "Num 3" "''x''"]
  by (simp add: keys_of_def)

text \<open>
  Claim C5 as stated fails on a tree with a string child at a key other than
  \<^verbatim>\<open>collection\<close>: the walk recurses into the string and does not return.
\<close>

theorem renderCollections_string_child_diverges: "renderCollections sample_drizzle (Obj [(''a'', Str ''x'')]) (Obj []) = None"
proof -
  have "walk_keys sample_drizzle (keys_of (child (Obj [(''a'', Str ''x'')]) ''a'')) (child (Obj [(''a'', Str ''x'')]) ''a'')
          (Obj []) (\<lambda>c. setchild (Obj [(''a'', Str ''x'')]) ''a'' c) ''a'' = None"
    by (simp add: child_def string_diverges)
  then show ?thesis
    by (simp add: renderCollections_def walkCollections_def keys_of_def[of "Obj _"] walk_keys_Cons[where patternKey="''a''"])
qed


section \<open>The pattern tree builder\<close>

text \<open>
  The builder itself (\<^verbatim>\<open>parse/patterns\<close>) is not among the source files; only its
  tests are. This section follows the specification, sections 3 and 4.3, and uses the
  \<^verbatim>\<open>keyname\<close> and \<^verbatim>\<open>relativePathArray\<close> of the sources for keys and directory
  segments.
\<close>

text \<open>Modelled from the spec: \<^verbatim>\<open>parse/patterns\<close> is absent from the
  sources. A file record is what the reader hands to the builder: the path, the parsed
  front-matter data, the body, and whether the data is destined to merge onto the Collection
  of its directory (the specification does not say how such a file is recognised, so the
  record carries the answer).\<close>

record file_record =
  path :: string
  data :: props
  contents :: string
  collection_level :: bool

text \<open>Modelled from the spec: \<^verbatim>\<open>parse/patterns\<close> is absent from the
  sources. A Pattern leaf \<^verbatim>\<open>{id, name, data, contents, path}\<close> (section
  3); its resource type is fixed and left out.\<close>

record pattern =
  pattern_id :: string
  pattern_name :: string
  pattern_data :: props
  pattern_contents :: string
  pattern_path :: string

text \<open>Modelled from the spec: \<^verbatim>\<open>parse/patterns\<close> is absent from the
  sources. A Collection \<^verbatim>\<open>{name, items, patterns}\<close> with its own id and
  the data merged onto it (sections 3 and 4.3). \<open>items\<close> is a finite map from keys
  to patterns, so two collections with the same entries are equal whatever the order of
  insertion.\<close>

record collection =
  collection_id :: string
  collection_name :: string
  collection_data :: props
  items :: "(string, pattern) fmap"
  patterns :: "pattern list"

text \<open>Modelled from the spec: \<^verbatim>\<open>parse/patterns\<close> is absent from the
  sources. A Namespace is a node with the Collection of its directory, if one was created, and
  the Namespaces of its sub-directories by name.\<close>

datatype tree = Namespace (collection_of: "collection option") (children: "(string, tree) fmap")

text \<open>Modelled from the spec: \<^verbatim>\<open>parse/patterns\<close> is absent from the
  sources. The build options the builder consumes: the root key of the IDs, the source root,
  and the process working directory that \<^verbatim>\<open>relativePathArray\<close> depends
  on. \<^verbatim>\<open>titleCase\<close> is taken as given.\<close>

record builder_options =
  rootKey :: string
  basedir :: string
  workdir :: string
  titleCase :: "string \<Rightarrow> string"

text \<open>Modelled from the spec: \<^verbatim>\<open>parse/patterns\<close> is absent from the
  sources. The directory segments of a record relative to the source root, by
  \<^verbatim>\<open>relativePathArray\<close> (section 4.3, input).\<close>

definition segments :: "builder_options \<Rightarrow> file_record \<Rightarrow> string list" where
  "segments opts r = relativePathArray (workdir opts) (path r) (basedir opts)"

text \<open>Modelled from the spec: \<^verbatim>\<open>parse/patterns\<close> is absent from the
  sources. The key of a record is \<^verbatim>\<open>keyname(path)\<close> with the default
  options (section 4.3, step 3).\<close>

definition record_key :: "file_record \<Rightarrow> string" where
  "record_key r = keyname (path r) True"

text \<open>Modelled from the spec: \<^verbatim>\<open>parse/patterns\<close> is absent from the
  sources. Whether parsed data defines a property of a given name.\<close>

definition has_property :: "props \<Rightarrow> string \<Rightarrow> bool" where
  "has_property d k = (k \<in> set (map fst d))"

text \<open>Modelled from the spec: \<^verbatim>\<open>parse/patterns\<close> is absent from the
  sources. The reserved-property check (section 4.3, step 5): \<^verbatim>\<open>id\<close> in
  the data of a pattern file, \<^verbatim>\<open>items\<close> or
  \<^verbatim>\<open>patterns\<close> in data destined for a Collection.\<close>

definition reserved_violation :: "file_record \<Rightarrow> string option" where
  "reserved_violation r =
     (if collection_level r then
        (if has_property (data r) ''items'' then Some ''items''
         else if has_property (data r) ''patterns'' then Some ''patterns'' else None)
      else (if has_property (data r) ''id'' then Some ''id'' else None))"

text \<open>Modelled from the spec: \<^verbatim>\<open>parse/patterns\<close> is absent from the
  sources. The message of the structured error names the property and the offending file
  (section 7); the tests look for the words \<^verbatim>\<open>Drizzle reserved
  property\<close> and for the property name.\<close>

fun error_message :: "error \<Rightarrow> string" where
  "error_message (ReservedPropertyError prop src) =
     ''Drizzle reserved property '' @ prop @ '' defined in '' @ src"
| "error_message _ = []"

text \<open>Modelled from the spec: \<^verbatim>\<open>parse/patterns\<close> is absent from the
  sources. The stub \<^verbatim>\<open>{name: titleCase(dirName), items: {}, patterns:
  []}\<close> created once per directory, with the dot-joined id of the directory (section
  4.3, steps 2 and 4).\<close>

definition collection_stub :: "builder_options \<Rightarrow> string list \<Rightarrow> collection" where
  "collection_stub opts segs =
     \<lparr>collection_id = join_with ''.'' (rootKey opts # segs),
      collection_name = titleCase opts (last (rootKey opts # segs)),
      collection_data = [],
      items = fmempty,
      patterns = []\<rparr>"

text \<open>Modelled from the spec: \<^verbatim>\<open>parse/patterns\<close> is absent from the
  sources. The data of a Pattern excludes the reserved keys (section 3).\<close>

definition strip_reserved :: "props \<Rightarrow> props" where
  "strip_reserved d = filter (\<lambda>kv. fst kv \<notin> {''id'', ''items'', ''patterns''}) d"

text \<open>Modelled from the spec: \<^verbatim>\<open>parse/patterns\<close> is absent from the
  sources. A display name given in the data overrides the default (section 3).\<close>

definition declared_name :: "props \<Rightarrow> string \<Rightarrow> string" where
  "declared_name d fallback = (case getprop d ''name'' of Str n \<Rightarrow> n | _ \<Rightarrow> fallback)"

text \<open>Modelled from the spec: \<^verbatim>\<open>parse/patterns\<close> is absent from the
  sources. The Pattern of a record, its id the dot-join of the root key, the directory
  segments and the record's key (section 4.3, steps 3 and 4).\<close>

definition make_pattern :: "builder_options \<Rightarrow> string list \<Rightarrow> file_record \<Rightarrow> pattern" where
  "make_pattern opts segs r =
     \<lparr>pattern_id = join_with ''.'' (rootKey opts # segs @ [record_key r]),
      pattern_name = declared_name (data r) (titleCase opts (record_key r)),
      pattern_data = strip_reserved (data r),
      pattern_contents = contents r,
      pattern_path = path r\<rparr>"

text \<open>Modelled from the spec: \<^verbatim>\<open>parse/patterns\<close> is absent from the
  sources. The collection-level front-matter merge; later data overrides earlier data property
  by property, and may override the name (section 4.3, step 2).\<close>

definition merge_collection_data :: "file_record \<Rightarrow> collection \<Rightarrow> collection" where
  "merge_collection_data r c =
     c\<lparr>collection_data := fold (\<lambda>kv acc. setprop acc (fst kv) (snd kv)) (data r) (collection_data c),
       collection_name := declared_name (data r) (collection_name c)\<rparr>"

text \<open>Modelled from the spec: \<^verbatim>\<open>parse/patterns\<close> is absent from the
  sources. What one record does at its terminal directory: the stub is created if absent, then
  the record is merged onto the Collection or added under \<open>items[key]\<close> (section
  4.3, steps 2 and 3).\<close>

definition add_record :: "builder_options \<Rightarrow> string list \<Rightarrow> file_record \<Rightarrow> collection option \<Rightarrow> collection option" where
  "add_record opts segs r c =
     (let stub = (case c of None \<Rightarrow> collection_stub opts segs | Some c' \<Rightarrow> c')
      in Some (if collection_level r then merge_collection_data r stub
               else stub\<lparr>items := fmupd (record_key r) (make_pattern opts segs r) (items stub)\<rparr>))"

text \<open>Modelled from the spec: \<^verbatim>\<open>parse/patterns\<close> is absent from the
  sources. The walk from the root along the directory segments, creating and never overwriting
  the intermediate Namespaces (section 4.3, step 1).\<close>

fun deepNamespace :: "string list \<Rightarrow> (collection option \<Rightarrow> collection option) \<Rightarrow> tree \<Rightarrow> tree" where
  "deepNamespace [] f (Namespace c subs) = Namespace (f c) subs"
| "deepNamespace (s # ss) f (Namespace c subs) =
     Namespace c (fmupd s (deepNamespace ss f
        (case fmlookup subs s of None \<Rightarrow> Namespace None fmempty | Some t \<Rightarrow> t)) subs)"

text \<open>Modelled from the spec: \<^verbatim>\<open>parse/patterns\<close> is absent from the
  sources. Steps 1 to 4 of section 4.3 for one record.\<close>

definition place_record :: "builder_options \<Rightarrow> file_record \<Rightarrow> tree \<Rightarrow> tree" where
  "place_record opts r t = deepNamespace (segments opts r) (add_record opts (segments opts r) r) t"

text \<open>Modelled from the spec: \<^verbatim>\<open>parse/patterns\<close> is absent from the
  sources. The records are handled in sequence; the first record that fails the
  reserved-property check ends the build with the error, and nothing after it is looked at
  (section 4.3, step 5).\<close>

fun place_all :: "builder_options \<Rightarrow> file_record list \<Rightarrow> tree \<Rightarrow> error + tree" where
  "place_all opts [] t = Inr t"
| "place_all opts (r # rs) t =
     (case reserved_violation r of
        Some prop \<Rightarrow> Inl (ReservedPropertyError prop (path r))
      | None \<Rightarrow> place_all opts rs (place_record opts r t))"

text \<open>Modelled from the spec: \<^verbatim>\<open>parse/patterns\<close> is absent from the
  sources. The natural order of keys compares maximal runs of digits by their value and the
  text between them as text; \<open>digit_groups\<close> cuts a key into these runs.\<close>

fun digit_groups :: "string \<Rightarrow> (bool \<times> string) list" where
  "digit_groups [] = []"
| "digit_groups (c # cs) =
     (case digit_groups cs of
        [] \<Rightarrow> [(is_digit c, [c])]
      | (d, run) # rest \<Rightarrow>
          (if d = is_digit c then (d, c # run) # rest else (is_digit c, [c]) # (d, run) # rest))"

text \<open>Modelled from the spec: \<^verbatim>\<open>parse/patterns\<close> is absent from the
  sources. The sort key of the natural order: a run of digits counts by its value and sorts
  before text.\<close>

definition natural_key :: "string \<Rightarrow> (nat \<times> nat \<times> string) list" where
  "natural_key s =
     map (\<lambda>(d, run). if d then (0, foldl (\<lambda>n c. 10 * n + (of_char c - 48)) 0 run, [])
                      else (1, 0, run)) (digit_groups s)"

text \<open>Modelled from the spec: \<^verbatim>\<open>parse/patterns\<close> is absent from the
  sources. An item is hidden when its own data flags it so (the specification does not name
  the flag; the model reads \<^verbatim>\<open>hidden\<close>).\<close>

definition is_hidden :: "pattern \<Rightarrow> bool" where
  "is_hidden p = truthy (getprop (pattern_data p) ''hidden'')"

text \<open>Modelled from the spec: \<^verbatim>\<open>parse/patterns\<close> is absent from the
  sources. The explicit ordering list a collection declares in its merged data (the
  specification does not name the property; the model reads the strings of the array
  \<^verbatim>\<open>order\<close>).\<close>

definition declared_order :: "props \<Rightarrow> string list" where
  "declared_order d =
     (case getprop d ''order'' of
        Obj entries \<Rightarrow> concat (map (\<lambda>kv. case snd kv of Str s \<Rightarrow> [s] | _ \<Rightarrow> []) entries)
      | _ \<Rightarrow> [])"

text \<open>Modelled from the spec: \<^verbatim>\<open>parse/patterns\<close> is absent from the
  sources. The keys of \<open>patterns\<close>: the keys named in the declared list first, in
  that order (a key named twice counts where it is named first, a name that is no key is
  passed over), then the other keys in stable natural order, and of all these only the keys of
  items that are not hidden (section 4.3).\<close>

definition pattern_order :: "string list \<Rightarrow> (string, pattern) fmap \<Rightarrow> string list" where
  "pattern_order order its =
     (let keys = sorted_list_of_fset (fmdom its);
          listed = filter (\<lambda>k. k \<in> set keys) (rev (remdups (rev order)));
          unlisted = sort_key natural_key (filter (\<lambda>k. k \<notin> set order) keys)
      in filter (\<lambda>k. case fmlookup its k of None \<Rightarrow> False | Some p \<Rightarrow> \<not> is_hidden p)
           (listed @ unlisted))"

text \<open>Modelled from the spec: \<^verbatim>\<open>parse/patterns\<close> is absent from the
  sources. \<open>patterns\<close> is computed from \<open>items\<close>; \<open>items\<close>
  itself is left as it is.\<close>

definition compute_patterns :: "collection \<Rightarrow> collection" where
  "compute_patterns c =
     c\<lparr>patterns := concat (map (\<lambda>k. case fmlookup (items c) k of None \<Rightarrow> [] | Some p \<Rightarrow> [p])
                        (pattern_order (declared_order (collection_data c)) (items c)))\<rparr>"

text \<open>Modelled from the spec: \<^verbatim>\<open>parse/patterns\<close> is absent from the
  sources. After all records are placed, \<open>patterns\<close> is computed for each
  Collection of the tree.\<close>

primrec finalize :: "tree \<Rightarrow> tree" where
  "finalize (Namespace c subs) = Namespace (map_option compute_patterns c) (fmmap finalize subs)"

text \<open>Modelled from the spec: \<^verbatim>\<open>parse/patterns\<close> is absent from the
  sources. The Pattern Tree Builder: place every record, then compute the
  \<open>patterns\<close> of every Collection; a reserved property fails the whole build.\<close>

definition buildPatterns :: "builder_options \<Rightarrow> file_record list \<Rightarrow> error + tree" where
  "buildPatterns opts rs =
     (case place_all opts rs (Namespace None fmempty) of
        Inl e \<Rightarrow> Inl e
      | Inr t \<Rightarrow> Inr (finalize t))"

text \<open>Modelled from the spec: \<^verbatim>\<open>parse/patterns\<close> is absent from the
  sources. The Collection found by following directory segments from the root.\<close>

fun collection_at :: "string list \<Rightarrow> tree \<Rightarrow> collection option" where
  "collection_at [] (Namespace c subs) = c"
| "collection_at (s # ss) (Namespace c subs) =
     (case fmlookup subs s of None \<Rightarrow> None | Some t \<Rightarrow> collection_at ss t)"

text \<open>
  The place a record lands in: its directory and, for a pattern file, its key. Two
  records with the same place overwrite one another.
\<close>

definition slot :: "builder_options \<Rightarrow> file_record \<Rightarrow> string list \<times> string option" where
  "slot opts r = (segments opts r, if collection_level r then None else Some (record_key r))"


text \<open>Sample inputs for the examples.\<close>

definition sample_options :: builder_options where
  "sample_options = \<lparr>rootKey = ''patterns'', basedir = ''/src/patterns'', workdir = ''/'',
     titleCase = (\<lambda>s. s)\<rparr>"

definition sample_records :: "file_record list" where
  "sample_records =
     [\<lparr>path = ''/src/patterns/a.html'', data = [], contents = ''A'', collection_level = False\<rparr>,
      \<lparr>path = ''/src/patterns/b.html'', data = [(''hidden'', Bool True)], contents = ''B'',
         collection_level = False\<rparr>,
      \<lparr>path = ''/src/patterns/c.html'', data = [], contents = ''C'', collection_level = False\<rparr>,
      \<lparr>path = ''/src/patterns/d.html'', data = [], contents = ''D'', collection_level = False\<rparr>,
      \<lparr>path = ''/src/patterns/collection.yaml'',
         data = [(''order'', Obj [(''0'', Str ''d''), (''1'', Str ''a'')])], contents = [],
         collection_level = True\<rparr>]"

definition sample_bad_records :: "file_record list" where
  "sample_bad_records =
     [\<lparr>path = ''/src/patterns/a.html'', data = [], contents = ''A'', collection_level = False\<rparr>,
      \<lparr>path = ''/src/patterns/localId.html'', data = [(''id'', Str ''x'')], contents = ''B'',
         collection_level = False\<rparr>,
      \<lparr>path = ''/src/patterns/sub/collection.yaml'', data = [(''items'', Obj [])], contents = [],
         collection_level = True\<rparr>]"

definition sample_clash :: "file_record list" where
  "sample_clash =
     [\<lparr>path = ''/src/patterns/x.html'', data = [], contents = ''one'', collection_level = False\<rparr>,
      \<lparr>path = ''/src/patterns/x.md'', data = [], contents = ''two'', collection_level = False\<rparr>]"


section \<open>Facts about the builder\<close>

lemma place_all_clean:
  "\<forall>r\<in>set rs. reserved_violation r = None \<Longrightarrow>
   place_all opts rs t = Inr (fold (place_record opts) rs t)"
  by (induction rs arbitrary: t) auto

lemma place_all_first:
  "\<forall>x\<in>set front. reserved_violation x = None \<Longrightarrow> reserved_violation r = Some rp \<Longrightarrow>
   place_all opts (front @ r # rear) t = Inl (ReservedPropertyError rp (path r))"
  by (induction front arbitrary: t) auto

lemma reserved_violation_names:
  "reserved_violation r = Some rp \<Longrightarrow> rp \<in> {''id'', ''items'', ''patterns''} \<and> has_property (data r) rp"
  by (auto simp: reserved_violation_def split: if_splits)

lemma message_names_property: "sublist rp (error_message (ReservedPropertyError rp src))"
  unfolding error_message.simps by (rule sublist_appendI)

lemma message_names_source: "sublist src (error_message (ReservedPropertyError rp src))"
proof -
  have "suffix src (error_message (ReservedPropertyError rp src))"
    unfolding error_message.simps suffix_def by (metis append.assoc)
  then show ?thesis by (rule suffix_imp_sublist)
qed

lemma deepNamespace_same:
  "deepNamespace p f (deepNamespace p g t) = deepNamespace p (f \<circ> g) t"
proof (induction p arbitrary: t)
  case Nil
  then show ?case by (cases t) simp
next
  case (Cons s ss)
  then show ?case by (cases t) simp
qed

lemma deepNamespace_commute:
  "p \<noteq> q \<Longrightarrow> deepNamespace p f (deepNamespace q g t) = deepNamespace q g (deepNamespace p f t)"
proof (induction p arbitrary: q t)
  case Nil
  then obtain s ss where "q = s # ss" by (cases q) auto
  then show ?case by (cases t) simp
next
  case (Cons s ss)
  obtain c subs where t: "t = Namespace c subs" by (cases t)
  show ?case
  proof (cases q)
    case Nil
    then show ?thesis by (simp add: t)
  next
    case (Cons s' ss')
    show ?thesis
    proof (cases "s = s'")
      case True
      with Cons Cons.prems have "ss \<noteq> ss'" by simp
      from Cons.IH[OF this] True show ?thesis by (simp add: t Cons)
    next
      case False
      then show ?thesis by (simp add: t Cons fmupd_reorder_neq[of s s'])
    qed
  qed
qed

lemma add_record_commute:
  assumes "slot opts r \<noteq> slot opts r'" and "segments opts r = segs" and "segments opts r' = segs"
  shows "add_record opts segs r \<circ> add_record opts segs r' = add_record opts segs r' \<circ> add_record opts segs r"
proof
  fix c
  from assms have neq: "collection_level r \<and> \<not> collection_level r' \<or> \<not> collection_level r \<and> collection_level r'
      \<or> (\<not> collection_level r \<and> \<not> collection_level r' \<and> record_key r \<noteq> record_key r')"
    by (auto simp: slot_def split: if_splits)
  then show "(add_record opts segs r \<circ> add_record opts segs r') c = (add_record opts segs r' \<circ> add_record opts segs r) c"
    by (auto simp: add_record_def merge_collection_data_def Let_def fmupd_reorder_neq
        split: option.splits)
qed

lemma place_record_commute:
  assumes "slot opts r \<noteq> slot opts r'"
  shows "place_record opts r \<circ> place_record opts r' = place_record opts r' \<circ> place_record opts r"
proof (cases "segments opts r = segments opts r'")
  case True
  have comm: "add_record opts (segments opts r') r \<circ> add_record opts (segments opts r') r'
            = add_record opts (segments opts r') r' \<circ> add_record opts (segments opts r') r"
    by (rule add_record_commute[OF assms True refl])
  show ?thesis
  proof
    fix t
    have "(place_record opts r \<circ> place_record opts r') t
          = deepNamespace (segments opts r')
              (add_record opts (segments opts r') r \<circ> add_record opts (segments opts r') r') t"
      by (simp add: place_record_def True deepNamespace_same)
    also have "\<dots> = deepNamespace (segments opts r')
              (add_record opts (segments opts r') r' \<circ> add_record opts (segments opts r') r) t"
      by (simp only: comm)
    also have "\<dots> = (place_record opts r' \<circ> place_record opts r) t"
      by (simp add: place_record_def True deepNamespace_same)
    finally show "(place_record opts r \<circ> place_record opts r') t
          = (place_record opts r' \<circ> place_record opts r) t" .
  qed
next
  case False
  then show ?thesis
    by (auto simp: place_record_def fun_eq_iff deepNamespace_commute)
qed

lemma fold_place_permuted:
  assumes "mset rs = mset rs'" and "distinct (map (slot opts) rs)"
  shows "fold (place_record opts) rs = fold (place_record opts) rs'"
proof (rule fold_multiset_equiv[OF _ assms(1)])
  fix x y assume "x \<in> set rs" "y \<in> set rs"
  with assms(2) have "x = y \<or> slot opts x \<noteq> slot opts y"
    by (meson distinct_map inj_onD)
  then show "place_record opts x \<circ> place_record opts y = place_record opts y \<circ> place_record opts x"
    using place_record_commute by blast
qed

lemma buildPatterns_clean:
  "\<forall>r\<in>set rs. reserved_violation r = None \<Longrightarrow>
   buildPatterns opts rs = Inr (finalize (fold (place_record opts) rs (Namespace None fmempty)))"
  by (simp add: buildPatterns_def place_all_clean)

lemma buildPatterns_violation:
  assumes "\<exists>r\<in>set rs. reserved_violation r \<noteq> None"
  shows "\<exists>e. buildPatterns opts rs = Inl e"
proof -
  from split_list_first_prop[OF assms] obtain front r0 rear where
    rs: "rs = front @ r0 # rear" and r0: "reserved_violation r0 \<noteq> None"
    and front: "\<forall>x\<in>set front. \<not> reserved_violation x \<noteq> None" by blast
  from r0 obtain rp where rp: "reserved_violation r0 = Some rp" by blast
  from front have front': "\<forall>x\<in>set front. reserved_violation x = None" by simp
  show ?thesis
    by (simp add: buildPatterns_def rs place_all_first[OF front' rp])
qed




















section \<open>Claims on the pattern tree builder\<close>

text \<open>
  Claim C1. If some record fails the reserved-property check (a pattern file whose
  data defines \<^verbatim>\<open>id\<close>, or collection-level data that defines \<^verbatim>\<open>items\<close> or
  \<^verbatim>\<open>patterns\<close>), the build ends with the structured error of the first such record
  in sequence: the error carries the reserved property, which that record defines, and
  the record's path, and its message contains both. No tree is returned, and the result
  is the same whatever records follow the offending one.
\<close>

theorem build_fails_on_reserved:
  assumes "r \<in> set rs" and "reserved_violation r \<noteq> None"
  shows "\<exists>front r0 rear rp. rs = front @ r0 # rear
           \<and> (\<forall>x\<in>set front. reserved_violation x = None)
           \<and> reserved_violation r0 = Some rp
           \<and> rp \<in> {''id'', ''items'', ''patterns''} \<and> has_property (data r0) rp
           \<and> (\<forall>rear'. buildPatterns opts (front @ r0 # rear')
                    = Inl (ReservedPropertyError rp (path r0)))
           \<and> sublist rp (error_message (ReservedPropertyError rp (path r0)))
           \<and> sublist (path r0) (error_message (ReservedPropertyError rp (path r0)))"
proof -
  from assms have "\<exists>x\<in>set rs. reserved_violation x \<noteq> None" by blast
  from split_list_first_prop[OF this] obtain front r0 rear where
    rs: "rs = front @ r0 # rear" and r0: "reserved_violation r0 \<noteq> None"
    and front: "\<forall>x\<in>set front. \<not> reserved_violation x \<noteq> None" by blast
  from r0 obtain rp where rp: "reserved_violation r0 = Some rp" by blast
  from front have front': "\<forall>x\<in>set front. reserved_violation x = None" by simp
  have fails: "\<forall>rear'. buildPatterns opts (front @ r0 # rear')
                    = Inl (ReservedPropertyError rp (path r0))"
    by (simp add: buildPatterns_def place_all_first[OF front' rp])
  from rs front' rp reserved_violation_names[OF rp] fails message_names_property message_names_source
  show ?thesis by blast
qed

theorem build_fails_on_reserved_witness:
  "sample_bad_records ! 1 \<in> set sample_bad_records
   \<and> reserved_violation (sample_bad_records ! 1) \<noteq> None
   \<and> (\<exists>front r0 rear rp. sample_bad_records = front @ r0 # rear
           \<and> reserved_violation r0 = Some rp
           \<and> (\<forall>rear'. buildPatterns sample_options (front @ r0 # rear')
                    = Inl (ReservedPropertyError rp (path r0))))
   \<and> buildPatterns sample_options sample_bad_records
        = Inl (ReservedPropertyError ''id'' ''/src/patterns/localId.html'')
   \<and> buildPatterns sample_options (rev sample_bad_records)
        = Inl (ReservedPropertyError ''items'' ''/src/patterns/sub/collection.yaml'')"
proof -
  have m: "sample_bad_records ! 1 \<in> set sample_bad_records"
    by (simp add: sample_bad_records_def)
  have v: "reserved_violation (sample_bad_records ! 1) \<noteq> None"
    by (simp add: sample_bad_records_def reserved_violation_def has_property_def)
  have e1: "buildPatterns sample_options sample_bad_records
        = Inl (ReservedPropertyError ''id'' ''/src/patterns/localId.html'')"
    by code_simp
  have e2: "buildPatterns sample_options (rev sample_bad_records)
        = Inl (ReservedPropertyError ''items'' ''/src/patterns/sub/collection.yaml'')"
    by code_simp
  from build_fails_on_reserved[OF m v, of sample_options] m v e1 e2 show ?thesis by blast
qed





text \<open>
  Claim C3, as the model has it. Two read orders of the same records give the same
  result when no two records share a place (directory and key, or directory for
  collection-level data): either both builds fail on a reserved property, or both return
  the same tree, with the same ids, items and patterns.
\<close>

theorem build_permutation:
  assumes "mset rs = mset rs'" and "distinct (map (slot opts) rs)"
  shows "(\<exists>e e'. buildPatterns opts rs = Inl e \<and> buildPatterns opts rs' = Inl e')
         \<or> (\<exists>t. buildPatterns opts rs = Inr t \<and> buildPatterns opts rs' = Inr t)"
proof (cases "\<forall>r\<in>set rs. reserved_violation r = None")
  case True
  moreover from assms(1) have "set rs' = set rs" by (metis mset_eq_setD)
  ultimately have "\<forall>r\<in>set rs'. reserved_violation r = None" by simp
  with True fold_place_permuted[OF assms] show ?thesis
    by (simp add: buildPatterns_clean)
next
  case False
  moreover from assms(1) have "set rs' = set rs" by (metis mset_eq_setD)
  ultimately have "\<exists>r\<in>set rs. reserved_violation r \<noteq> None" "\<exists>r\<in>set rs'. reserved_violation r \<noteq> None"
    by auto
  with buildPatterns_violation[of rs opts] buildPatterns_violation[of rs' opts] show ?thesis by blast
qed


theorem build_permutation_witness:
  "mset sample_records = mset (rev sample_records)
   \<and> distinct (map (slot sample_options) sample_records)
   \<and> ((\<exists>e e'. buildPatterns sample_options sample_records = Inl e
               \<and> buildPatterns sample_options (rev sample_records) = Inl e')
        \<or> (\<exists>t. buildPatterns sample_options sample_records = Inr t
               \<and> buildPatterns sample_options (rev sample_records) = Inr t))"
proof -
  have m: "mset sample_records = mset (rev sample_records)" by simp
  have d: "distinct (map (slot sample_options) sample_records)" by code_simp
  from build_permutation[OF m d] m d show ?thesis by blast
qed

text \<open>
  Claim C3 as stated fails for two files of one directory with the same key
  (\<^verbatim>\<open>x.html\<close> and \<^verbatim>\<open>x.md\<close>): the one read last is the item, so the two read
  orders give different trees.
\<close>

theorem build_depends_on_order_of_clashing_keys:
  "mset sample_clash = mset (rev sample_clash)
   \<and> buildPatterns sample_options sample_clash \<noteq> buildPatterns sample_options (rev sample_clash)"
proof -
  have a: "(case buildPatterns sample_options sample_clash of
              Inr t \<Rightarrow> map_option (\<lambda>c. map pattern_path (patterns c)) (collection_at [] t)
            | Inl e \<Rightarrow> None) = Some [''/src/patterns/x.md'']"
    by code_simp
  have b: "(case buildPatterns sample_options (rev sample_clash) of
              Inr t \<Rightarrow> map_option (\<lambda>c. map pattern_path (patterns c)) (collection_at [] t)
            | Inl e \<Rightarrow> None) = Some [''/src/patterns/x.html'']"
    by code_simp
  have "buildPatterns sample_options sample_clash \<noteq> buildPatterns sample_options (rev sample_clash)"
  proof
    assume "buildPatterns sample_options sample_clash = buildPatterns sample_options (rev sample_clash)"
    with a b show False by simp
  qed
  then show ?thesis by simp
qed

end
